theory Spec2Isabelle
  imports Main "HOL-Library.Word"
begin

section \<open>JavaScript strings\<close>

text \<open>
  A JavaScript string is a sequence of 16-bit code units. \<open>lit\<close> embeds an ASCII
  literal of the source. Header values and \<open>req.url\<close> reach the handlers as such
  strings; \<open>decodeURIComponent\<close> can produce any code unit.
\<close>

type_synonym code_unit = "16 word"
type_synonym jsstring = "code_unit list"

definition lit :: "string \<Rightarrow> jsstring" where
  "lit s = map of_char s"

text \<open>\<open>String.prototype.startsWith\<close>.\<close>

definition startsWith :: "jsstring \<Rightarrow> jsstring \<Rightarrow> bool" where
  "startsWith s p = (take (length p) s = p)"

text \<open>
  \<open>String.prototype.replace\<close> with a string pattern: the first occurrence of the
  pattern is replaced, the rest of the string is kept. (The replacement used by the
  source is the empty string, so no \<open>$\<close> pattern is involved.)
\<close>

fun replace_first :: "jsstring \<Rightarrow> jsstring \<Rightarrow> jsstring \<Rightarrow> jsstring" where
  "replace_first pat rep [] = (if pat = [] then rep else [])"
| "replace_first pat rep (c # s) =
     (if startsWith (c # s) pat then rep @ drop (length pat) (c # s)
      else c # replace_first pat rep s)"

text \<open>
  White space as \<open>String.prototype.trim\<close> and the regular expression class
  \<open>\s\<close> see it: WhiteSpace and LineTerminator of ECMAScript.
\<close>

definition is_space :: "code_unit \<Rightarrow> bool" where
  "is_space c \<longleftrightarrow>
     c \<in> {0x09, 0x0A, 0x0B, 0x0C, 0x0D, 0x20, 0xA0, 0x1680, 0x2028, 0x2029,
          0x202F, 0x205F, 0x3000, 0xFEFF} \<or> (0x2000 \<le> c \<and> c \<le> 0x200A)"

definition trim :: "jsstring \<Rightarrow> jsstring" where
  "trim s = rev (dropWhile is_space (rev (dropWhile is_space s)))"

text \<open>A number in a template literal: its decimal digits.\<close>

fun show_nat :: "nat \<Rightarrow> jsstring" where
  "show_nat n =
     (if n < 10 then [of_nat (48 + n)]
      else show_nat (n div 10) @ [of_nat (48 + n mod 10)])"

declare show_nat.simps [simp del]

text \<open>
  A value read from a header object is a string or \<open>undefined\<close> (\<open>None\<close>).
  \<open>truthy\<close> is its value in a condition, \<open>js_String\<close> is \<open>String(v)\<close>.
\<close>

definition truthy :: "jsstring option \<Rightarrow> bool" where
  "truthy v = (case v of None \<Rightarrow> False | Some s \<Rightarrow> s \<noteq> [])"

definition js_String :: "jsstring option \<Rightarrow> jsstring" where
  "js_String v = (case v of None \<Rightarrow> lit ''undefined'' | Some s \<Rightarrow> s)"

section \<open>decodeURIComponent\<close>

text \<open>
  The built-in of ECMAScript (abstract operation Decode with an empty set of preserved
  escapes). A code unit other than \<open>%\<close> is copied. \<open>%\<close> must be followed by two
  hexadecimal digits, an octet; an octet with a leading 1 bit starts a UTF-8 sequence
  whose other octets are escapes too, and the sequence must be the UTF-8 encoding of a
  code point, which is appended in UTF-16. Anything else throws URIError: \<open>None\<close>.
\<close>

definition hex_digit :: "code_unit \<Rightarrow> nat option" where
  "hex_digit c =
     (if 0x30 \<le> c \<and> c \<le> 0x39 then Some (unat c - 0x30)
      else if 0x41 \<le> c \<and> c \<le> 0x46 then Some (unat c - 0x41 + 10)
      else if 0x61 \<le> c \<and> c \<le> 0x66 then Some (unat c - 0x61 + 10)
      else None)"

definition parse_hex_octet :: "code_unit \<Rightarrow> code_unit \<Rightarrow> nat option" where
  "parse_hex_octet h l =
     (case hex_digit h of None \<Rightarrow> None
      | Some a \<Rightarrow> (case hex_digit l of None \<Rightarrow> None | Some b \<Rightarrow> Some (16 * a + b)))"

text \<open>The number of leading 1 bits of an octet.\<close>

definition leading_ones :: "nat \<Rightarrow> nat" where
  "leading_ones b =
     (if b < 0x80 then 0 else if b < 0xC0 then 1 else if b < 0xE0 then 2
      else if b < 0xF0 then 3 else if b < 0xF8 then 4 else 5)"

text \<open>The \<open>n\<close> escapes \<open>%XX\<close> that continue a sequence, and the rest of the string.\<close>

fun continuation_octets :: "nat \<Rightarrow> jsstring \<Rightarrow> (nat list \<times> jsstring) option" where
  "continuation_octets 0 s = Some ([], s)"
| "continuation_octets (Suc n) (p # h # l # s) =
     (if p \<noteq> 0x25 then None
      else case parse_hex_octet h l of None \<Rightarrow> None
        | Some b \<Rightarrow>
            (case continuation_octets n s of None \<Rightarrow> None
             | Some (bs, r) \<Rightarrow> Some (b # bs, r)))"
| "continuation_octets (Suc n) s = None"

text \<open>
  The code point a list of two to four octets encodes in UTF-8, when it is a valid
  encoding: continuation octets are \<open>10xxxxxx\<close>, the encoding is the shortest one, and
  the code point is neither a surrogate nor above \<open>0x10FFFF\<close>.
\<close>

definition utf8_code_point :: "nat list \<Rightarrow> nat option" where
  "utf8_code_point os =
     (case os of
        [] \<Rightarrow> None
      | b # bs \<Rightarrow>
          (let n = length os;
               v = foldl (\<lambda>a c. 64 * a + c mod 64) (b mod 2 ^ (7 - n)) bs;
               least = (if n = 2 then 0x80 else if n = 3 then 0x800 else 0x10000)
           in if list_all (\<lambda>c. 0x80 \<le> c \<and> c < 0xC0) bs \<and> least \<le> v \<and> v \<le> 0x10FFFF
                 \<and> \<not> (0xD800 \<le> v \<and> v \<le> 0xDFFF)
              then Some v else None))"

definition utf16_encode :: "nat \<Rightarrow> jsstring" where
  "utf16_encode v =
     (if v < 0x10000 then [of_nat v]
      else [of_nat (0xD800 + (v - 0x10000) div 0x400),
            of_nat (0xDC00 + (v - 0x10000) mod 0x400)])"

text \<open>One round of the loop of Decode: the code units appended, and the rest.\<close>

definition decode_step :: "code_unit \<Rightarrow> jsstring \<Rightarrow> (jsstring \<times> jsstring) option" where
  "decode_step c s =
     (if c \<noteq> 0x25 then Some ([c], s)
      else case s of
        h # l # r \<Rightarrow>
          (case parse_hex_octet h l of
             None \<Rightarrow> None
           | Some b \<Rightarrow>
               (let n = leading_ones b
                in if n = 0 then Some ([of_nat b], r)
                   else if n = 1 \<or> 4 < n then None
                   else case continuation_octets (n - 1) r of
                       None \<Rightarrow> None
                     | Some (bs, r') \<Rightarrow>
                         (case utf8_code_point (b # bs) of
                            None \<Rightarrow> None
                          | Some v \<Rightarrow> Some (utf16_encode v, r'))))
      | _ \<Rightarrow> None)"

lemma continuation_octets_length:
  "continuation_octets n s = Some (bs, r) \<Longrightarrow> length r \<le> length s"
  by (induction n s arbitrary: bs r rule: continuation_octets.induct)
     (fastforce split: if_splits option.splits)+

lemma decode_step_length:
  assumes "decode_step c s = Some (out, r)"
  shows "length r \<le> length s"
  using assms continuation_octets_length
  by (fastforce simp: decode_step_def Let_def split: if_splits list.splits option.splits)

function decodeURIComponent :: "jsstring \<Rightarrow> jsstring option" where
  "decodeURIComponent [] = Some []"
| "decodeURIComponent (c # s) =
     (case decode_step c s of
        None \<Rightarrow> None
      | Some (out, r) \<Rightarrow>
          (case decodeURIComponent r of None \<Rightarrow> None | Some d \<Rightarrow> Some (out @ d)))"
  by pat_completeness auto
termination
  by (relation "measure length") (auto dest: decode_step_length)

section \<open>Regular expressions and string operations of the download relay\<close>

text \<open>
  \<open>String.prototype.match\<close> with a regular expression that has no flag returns the
  leftmost match, or \<open>null\<close> (\<open>None\<close>). \<open>leftmost m s\<close> tries the anchored
  matcher \<open>m\<close> at each position of \<open>s\<close> from the left, the end of the string
  included.
\<close>

fun leftmost :: "(jsstring \<Rightarrow> 'a option) \<Rightarrow> jsstring \<Rightarrow> 'a option" where
  "leftmost m [] = m []"
| "leftmost m (c # s) = (case m (c # s) of Some x \<Rightarrow> Some x | None \<Rightarrow> leftmost m s)"

text \<open>
  \<open>/filename="([^"]+)"/\<close> at the start of \<open>s\<close>: the capture is the longest run of
  code units other than the double quote, which must not be empty and must be followed
  by a double quote. (A shorter run is followed by a code unit of the run, never by the
  quote, so backtracking finds nothing else.)
\<close>

definition quoted_here :: "jsstring \<Rightarrow> jsstring option" where
  "quoted_here s =
     (if startsWith s (lit ''filename=\"'')
      then (let r = drop (length (lit ''filename=\"'')) s;
                x = takeWhile (\<lambda>c. c \<noteq> 0x22) r
            in if x \<noteq> [] \<and> length x < length r then Some x else None)
      else None)"

text \<open>
  \<open>/filename=([^;]+)/\<close> at the start of \<open>s\<close>: the capture is the longest run of
  code units other than the semicolon, which must not be empty.
\<close>

definition unquoted_here :: "jsstring \<Rightarrow> jsstring option" where
  "unquoted_here s =
     (if startsWith s (lit ''filename='')
      then (let x = takeWhile (\<lambda>c. c \<noteq> 0x3B) (drop (length (lit ''filename='')) s)
            in if x \<noteq> [] then Some x else None)
      else None)"

text \<open>\<open>filename.split(/[\\/]/).pop()\<close>: what follows the last slash or backslash.\<close>

definition last_component :: "jsstring \<Rightarrow> jsstring" where
  "last_component s = rev (takeWhile (\<lambda>c. c \<noteq> 0x2F \<and> c \<noteq> 0x5C) (rev s))"

text \<open>
  Lines 426 to 436 of \<open>src/index.js\<close>: the file name of the download, from the
  \<open>content-disposition\<close> header of the upstream response.
\<close>

definition download_filename :: "jsstring option \<Rightarrow> jsstring" where
  "download_filename contentDisposition =
     (case contentDisposition of
        None \<Rightarrow> lit ''Movie_by_GiftedTech.mp4''
      | Some cd \<Rightarrow>
          if cd = [] then lit ''Movie_by_GiftedTech.mp4''
          else (case (case leftmost quoted_here cd of
                        Some x \<Rightarrow> Some x
                      | None \<Rightarrow> leftmost unquoted_here cd) of
                  Some x \<Rightarrow> if x \<noteq> [] then last_component (trim x)
                            else lit ''Movie_by_GiftedTech.mp4''
                | None \<Rightarrow> lit ''Movie_by_GiftedTech.mp4''))"

text \<open>
  The two patterns as the specification words them, for comparison with the matchers
  above. \<open>quoted_at cd pre x\<close>: after the prefix \<open>pre\<close>, the header \<open>cd\<close> goes on
  with \<open>filename="\<close>, then \<open>x\<close>, which is not empty and holds no double quote,
  then a double quote. \<open>unquoted_at cd pre x\<close>: after \<open>pre\<close> it goes on with
  \<open>filename=\<close>, then \<open>x\<close>, which is not empty and holds no semicolon, and then
  ends or goes on with a semicolon. \<open>first_quoted\<close> and \<open>first_unquoted\<close> are the
  occurrence that starts first.
\<close>

definition quoted_at :: "jsstring \<Rightarrow> jsstring \<Rightarrow> jsstring \<Rightarrow> bool" where
  "quoted_at cd pre x \<longleftrightarrow>
     x \<noteq> [] \<and> 0x22 \<notin> set x \<and> (\<exists>post. cd = pre @ lit ''filename=\"'' @ x @ 0x22 # post)"

definition unquoted_at :: "jsstring \<Rightarrow> jsstring \<Rightarrow> jsstring \<Rightarrow> bool" where
  "unquoted_at cd pre x \<longleftrightarrow>
     x \<noteq> [] \<and> 0x3B \<notin> set x \<and>
     (\<exists>post. cd = pre @ lit ''filename='' @ x @ post \<and> (post = [] \<or> hd post = 0x3B))"

definition first_quoted :: "jsstring \<Rightarrow> jsstring \<Rightarrow> bool" where
  "first_quoted cd x \<longleftrightarrow>
     (\<exists>pre. quoted_at cd pre x \<and> (\<forall>pre' x'. quoted_at cd pre' x' \<longrightarrow> length pre \<le> length pre'))"

definition first_unquoted :: "jsstring \<Rightarrow> jsstring \<Rightarrow> bool" where
  "first_unquoted cd x \<longleftrightarrow>
     (\<exists>pre. unquoted_at cd pre x \<and>
        (\<forall>pre' x'. unquoted_at cd pre' x' \<longrightarrow> length pre \<le> length pre'))"

section \<open>Requests, responses and the calls of Express\<close>

text \<open>
  What the handlers read of the inbound request: \<open>req.method\<close>, \<open>req.url\<close> and
  \<open>req.headers.range\<close> (\<open>None\<close> when the request has no \<open>Range\<close> header).
\<close>

record request =
  req_method :: jsstring
  req_url :: jsstring
  req_range :: "jsstring option"

text \<open>
  A JSON body is the object handed to \<open>res.json\<close>, its fields in the order they are
  written. A body is sent in parts: a JSON object, a text, or a chunk of bytes relayed
  from upstream.
\<close>

datatype json_value = JNum nat | JStr jsstring

type_synonym json_object = "(string \<times> json_value) list"

datatype body_part = Json json_object | Text jsstring | Chunk "8 word list"

text \<open>
  The response object: the status code (200 until \<open>res.status\<close> changes it), the
  headers the application has set (name and value, in the order they were first set;
  the source spells each name one way only, so names are compared as written),
  \<open>res.headersSent\<close>, the body parts written so far, and whether the response has
  been ended. The headers that Express and Node add by themselves when a body is sent
  (\<open>Content-Type\<close> and \<open>Content-Length\<close> of a JSON or text body, \<open>ETag\<close>,
  \<open>Date\<close> and the like) and the lines printed by \<open>console.log\<close> are not part of
  the model.
\<close>

record response =
  statusCode :: nat
  headers :: "(string \<times> jsstring) list"
  headersSent :: bool
  written :: "body_part list"
  ended :: bool

definition new_response :: response where
  "new_response =
     \<lparr>statusCode = 200, headers = [], headersSent = False, written = [], ended = False\<rparr>"

fun setHeader :: "string \<Rightarrow> jsstring \<Rightarrow> (string \<times> jsstring) list \<Rightarrow> (string \<times> jsstring) list" where
  "setHeader k v [] = [(k, v)]"
| "setHeader k v ((k', v') # hs) =
     (if k' = k then (k, v) # hs else (k', v') # setHeader k v hs)"

definition getHeader :: "response \<Rightarrow> string \<Rightarrow> jsstring option" where
  "getHeader res k = map_of (headers res) k"

text \<open>
  \<open>res.set\<close> of Express 4 (\<open>res.header\<close> is the same function) stores
  \<open>String(val)\<close>, so a value that is \<open>undefined\<close> is stored as the text
  \<open>undefined\<close>. For \<open>Content-Type\<close> it appends \<open>; charset=utf-8\<close> when the value
  has no charset parameter (\<open>/;\s*charset\s*=/\<close>) and its type, the value up to the
  first semicolon, matches \<open>/^text\/|^application\/(javascript|json)/\<close>.
\<close>

fun has_charset :: "jsstring \<Rightarrow> bool" where
  "has_charset [] = False"
| "has_charset (c # s) =
     ((c = 0x3B \<and>
        (let r = dropWhile is_space s
         in startsWith r (lit ''charset'') \<and>
            (case dropWhile is_space (drop (length (lit ''charset'')) r) of
               [] \<Rightarrow> False
             | e # _ \<Rightarrow> e = 0x3D)))
      \<or> has_charset s)"

definition text_type :: "jsstring \<Rightarrow> bool" where
  "text_type t \<longleftrightarrow>
     startsWith t (lit ''text/'') \<or> startsWith t (lit ''application/javascript'')
     \<or> startsWith t (lit ''application/json'')"

definition content_type_value :: "jsstring \<Rightarrow> jsstring" where
  "content_type_value v =
     (if \<not> has_charset v \<and> text_type (takeWhile (\<lambda>c. c \<noteq> 0x3B) v)
      then v @ lit ''; charset=utf-8'' else v)"

definition res_set :: "string \<Rightarrow> jsstring option \<Rightarrow> response \<Rightarrow> response" where
  "res_set field val res =
     res\<lparr>headers :=
       setHeader field
         (if field = ''Content-Type'' then content_type_value (js_String val)
          else js_String val)
         (headers res)\<rparr>"

text \<open>
  \<open>res.json\<close> and \<open>res.send\<close> of Express 4 send a text body in UTF-8 and say so
  in the header: when \<open>Content-Type\<close> is set, \<open>res.send\<close> replaces it by
  \<open>setCharset(type, 'utf-8')\<close>, which parses the value with the \<open>content-type\<close>
  module and throws a \<open>TypeError\<close> when that fails. \<open>setCharset_error\<close> is the
  message of that error, if any, after \<open>parse\<close> and \<open>format\<close> of the module:
  the type, the value up to the first semicolon, trimmed, must match \<open>TYPE_REGEXP\<close>
  (\<open>token/token\<close>); the rest must be matches of \<open>PARAM_REGEXP\<close> one after the
  other up to the end (\<open>; key = value\<close>, the value a token or a quoted string); and
  no parameter but \<open>charset\<close>, which is overwritten, may end with a value that
  \<open>format\<close> refuses.
\<close>

definition tchar :: "code_unit \<Rightarrow> bool" where
  "tchar c \<longleftrightarrow>
     c \<in> {0x21, 0x23, 0x24, 0x25, 0x26, 0x27, 0x2A, 0x2B, 0x2D, 0x2E, 0x5E, 0x5F, 0x60,
          0x7C, 0x7E}
     \<or> (0x30 \<le> c \<and> c \<le> 0x39) \<or> (0x41 \<le> c \<and> c \<le> 0x5A) \<or> (0x61 \<le> c \<and> c \<le> 0x7A)"

definition is_token :: "jsstring \<Rightarrow> bool" where
  "is_token s \<longleftrightarrow> s \<noteq> [] \<and> list_all tchar s"

definition media_type :: "jsstring \<Rightarrow> bool" where
  "media_type t \<longleftrightarrow>
     is_token (takeWhile (\<lambda>c. c \<noteq> 0x2F) t) \<and>
     (case dropWhile (\<lambda>c. c \<noteq> 0x2F) t of [] \<Rightarrow> False | slash # subtype \<Rightarrow> is_token subtype)"

text \<open>
  The characters of a quoted string of \<open>PARAM_REGEXP\<close>, the characters that may
  follow a backslash in it, and the characters of \<open>TEXT_REGEXP\<close>.
\<close>

definition qdtext :: "code_unit \<Rightarrow> bool" where
  "qdtext c \<longleftrightarrow>
     c = 0x0B \<or> c = 0x20 \<or> c = 0x21 \<or> (0x23 \<le> c \<and> c \<le> 0x5B) \<or> (0x5D \<le> c \<and> c \<le> 0x7E)
     \<or> (0x80 \<le> c \<and> c \<le> 0xFF)"

definition qesc :: "code_unit \<Rightarrow> bool" where
  "qesc c \<longleftrightarrow> c = 0x0B \<or> (0x20 \<le> c \<and> c \<le> 0xFF)"

definition text_char :: "code_unit \<Rightarrow> bool" where
  "text_char c \<longleftrightarrow> c = 0x0B \<or> (0x20 \<le> c \<and> c \<le> 0x7E) \<or> (0x80 \<le> c \<and> c \<le> 0xFF)"

text \<open>
  A quoted string after its opening quote: its value, with the backslashes of the
  escapes removed, and what follows the closing quote.
\<close>

fun quoted_string :: "jsstring \<Rightarrow> (jsstring \<times> jsstring) option" where
  "quoted_string [] = None"
| "quoted_string (c # s) =
     (if c = 0x22 then Some ([], s)
      else if c = 0x5C
      then (case s of
              [] \<Rightarrow> None
            | e # s' \<Rightarrow>
                if qesc e
                then (case quoted_string s' of None \<Rightarrow> None | Some (v, r) \<Rightarrow> Some (e # v, r))
                else None)
      else if qdtext c
      then (case quoted_string s of None \<Rightarrow> None | Some (v, r) \<Rightarrow> Some (c # v, r))
      else None)"

definition to_lower :: "code_unit \<Rightarrow> code_unit" where
  "to_lower c = (if 0x41 \<le> c \<and> c \<le> 0x5A then c + 0x20 else c)"

text \<open>
  One match of \<open>PARAM_REGEXP\<close> at the start of \<open>s\<close>, in its parts.
  \<open>param_key\<close>: the semicolon, spaces, the key (a token, returned in lower case),
  spaces and the equals sign. \<open>param_value\<close>: a quoted string or a token.
  \<open>parameter\<close>: key, spaces, value, spaces; the result is the key, the value and
  what follows the match.
\<close>

definition skip_spaces :: "jsstring \<Rightarrow> jsstring" where
  "skip_spaces s = dropWhile (\<lambda>c. c = 0x20) s"

definition param_key :: "jsstring \<Rightarrow> (jsstring \<times> jsstring) option" where
  "param_key s =
     (case s of
        [] \<Rightarrow> None
      | semi # s0 \<Rightarrow>
          if semi \<noteq> 0x3B \<or> takeWhile tchar (skip_spaces s0) = [] then None
          else (case skip_spaces (dropWhile tchar (skip_spaces s0)) of
                  [] \<Rightarrow> None
                | eq # s3 \<Rightarrow>
                    if eq = 0x3D
                    then Some (map to_lower (takeWhile tchar (skip_spaces s0)), s3)
                    else None))"

definition param_value :: "jsstring \<Rightarrow> (jsstring \<times> jsstring) option" where
  "param_value s =
     (case s of
        [] \<Rightarrow> None
      | q # s' \<Rightarrow>
          if q = 0x22 then quoted_string s'
          else if takeWhile tchar s = [] then None
          else Some (takeWhile tchar s, dropWhile tchar s))"

definition parameter :: "jsstring \<Rightarrow> ((jsstring \<times> jsstring) \<times> jsstring) option" where
  "parameter s =
     (case param_key s of
        None \<Rightarrow> None
      | Some (key, r) \<Rightarrow>
          (case param_value (skip_spaces r) of
             None \<Rightarrow> None
           | Some (v, r') \<Rightarrow> Some ((key, v), skip_spaces r')))"

lemma quoted_string_length:
  "quoted_string s = Some (v, r) \<Longrightarrow> length r < length s"
proof (induction s arbitrary: v r rule: quoted_string.induct)
  case 1
  then show ?case by simp
next
  case (2 c s)
  show ?case
  proof (cases "c = 0x22")
    case True
    with "2.prems" show ?thesis by simp
  next
    case quote: False
    show ?thesis
    proof (cases "c = 0x5C")
      case True
      with quote "2.prems" obtain e s' v' where s: "s = e # s'" and "qesc e"
        and "quoted_string s' = Some (v', r)"
        by (cases s) (auto split: if_splits option.splits)
      with "2.IH"(1) [of e s' v' r] quote True have "length r < length s'"
        by simp
      with s show ?thesis by simp
    next
      case False
      with quote "2.prems" obtain v' where "qdtext c" and "quoted_string s = Some (v', r)"
        by (auto split: if_splits option.splits)
      with "2.IH"(2) [of v' r] quote False have "length r < length s"
        by simp
      then show ?thesis by simp
    qed
  qed
qed

lemma skip_spaces_length: "length (skip_spaces s) \<le> length s"
  by (simp add: skip_spaces_def length_dropWhile_le)

lemma param_key_length:
  assumes "param_key s = Some (key, r)"
  shows "length r < length s"
proof -
  from assms obtain semi s0 where s: "s = semi # s0"
    by (cases s) (simp_all add: param_key_def)
  let ?s2 = "skip_spaces (dropWhile tchar (skip_spaces s0))"
  have "length ?s2 \<le> length (dropWhile tchar (skip_spaces s0))"
    by (rule skip_spaces_length)
  also have "\<dots> \<le> length (skip_spaces s0)"
    by (rule length_dropWhile_le)
  also have "\<dots> \<le> length s0"
    by (rule skip_spaces_length)
  finally have le: "length ?s2 \<le> length s0" .
  from assms s obtain eq where "?s2 = eq # r"
    by (cases ?s2) (simp_all add: param_key_def split: if_splits)
  with le s show ?thesis
    by simp
qed

lemma param_value_length:
  assumes "param_value s = Some (v, r)"
  shows "length r < length s"
proof -
  from assms obtain q s' where s: "s = q # s'"
    by (cases s) (simp_all add: param_value_def)
  show ?thesis
  proof (cases "q = 0x22")
    case True
    with assms s have "quoted_string s' = Some (v, r)"
      by (simp add: param_value_def)
    then have "length r < length s'"
      by (rule quoted_string_length)
    with s show ?thesis by simp
  next
    case False
    with assms s have v: "v = takeWhile tchar s" and r: "r = dropWhile tchar s"
      and ne: "takeWhile tchar s \<noteq> []"
      by (simp_all add: param_value_def split: if_splits)
    have "length (takeWhile tchar s) + length (dropWhile tchar s) = length s"
      by (metis length_append takeWhile_dropWhile_id)
    with ne r show ?thesis
      by (cases "takeWhile tchar s") simp_all
  qed
qed

lemma parameter_length:
  assumes "parameter s = Some (kv, r)"
  shows "length r < length s"
proof -
  from assms obtain key r1 where k: "param_key s = Some (key, r1)"
    by (cases "param_key s") (auto simp: parameter_def)
  with assms obtain v r2 where v: "param_value (skip_spaces r1) = Some (v, r2)"
    and r: "r = skip_spaces r2"
    by (cases "param_value (skip_spaces r1)") (auto simp: parameter_def)
  from v have "length r2 < length (skip_spaces r1)"
    by (rule param_value_length)
  also have "\<dots> \<le> length r1"
    by (rule skip_spaces_length)
  also from k have "\<dots> < length s"
    by (rule param_key_length)
  finally have "length r2 < length s" .
  with r show ?thesis
    using skip_spaces_length [of r2] by simp
qed

function parameters :: "jsstring \<Rightarrow> (jsstring \<times> jsstring) list option" where
  "parameters s =
     (if s = [] then Some []
      else (case parameter s of
              None \<Rightarrow> None
            | Some (kv, r) \<Rightarrow>
                (case parameters r of None \<Rightarrow> None | Some kvs \<Rightarrow> Some (kv # kvs))))"
  by pat_completeness auto
termination
  by (relation "measure length") (auto dest: parameter_length)

declare parameters.simps [simp del]

definition refused_value :: "jsstring \<Rightarrow> bool" where
  "refused_value v \<longleftrightarrow> \<not> is_token v \<and> v \<noteq> [] \<and> \<not> list_all text_char v"

definition setCharset_error :: "jsstring \<Rightarrow> jsstring option" where
  "setCharset_error t =
     (if \<not> media_type (trim (takeWhile (\<lambda>c. c \<noteq> 0x3B) t))
      then Some (lit ''invalid media type'')
      else (case parameters (dropWhile (\<lambda>c. c \<noteq> 0x3B) t) of
              None \<Rightarrow> Some (lit ''invalid parameter format'')
            | Some kvs \<Rightarrow>
                if list_ex
                     (\<lambda>k. k \<noteq> lit ''charset'' \<and>
                          (case map_of (rev kvs) k of None \<Rightarrow> False | Some v \<Rightarrow> refused_value v))
                     (map fst kvs)
                then Some (lit ''invalid parameter value'')
                else None))"

text \<open>
  The error \<open>res.json\<close> throws on a response, if any. Without a \<open>Content-Type\<close>,
  or with an empty one, \<open>res.json\<close> sets \<open>application/json\<close> itself.
\<close>

definition json_error :: "response \<Rightarrow> jsstring option" where
  "json_error res =
     (case getHeader res ''Content-Type'' of
        None \<Rightarrow> None
      | Some t \<Rightarrow> if t = [] then None else setCharset_error t)"

definition res_status :: "nat \<Rightarrow> response \<Rightarrow> response" where
  "res_status code res = res\<lparr>statusCode := code\<rparr>"

text \<open>
  \<open>res.json(obj)\<close> sends the object as the body and ends the response.
  \<open>res.send()\<close> without a body ends the response with nothing written.
  \<open>res.sendStatus(200)\<close> sets the status and sends the status message \<open>OK\<close> as
  the body. The headers these calls add for the body they send (\<open>Content-Type\<close>,
  \<open>Content-Length\<close>, \<open>ETag\<close>) are not recorded.
\<close>

definition res_json :: "json_object \<Rightarrow> response \<Rightarrow> response" where
  "res_json obj res =
     res\<lparr>headersSent := True, written := written res @ [Json obj], ended := True\<rparr>"

definition res_send_empty :: "response \<Rightarrow> response" where
  "res_send_empty res = res\<lparr>headersSent := True, ended := True\<rparr>"

definition res_sendStatus_200 :: "response \<Rightarrow> response" where
  "res_sendStatus_200 res =
     res\<lparr>statusCode := 200, headersSent := True,
         written := written res @ [Text (lit ''OK'')], ended := True\<rparr>"

text \<open>
  The response as a writable stream: the first \<open>write\<close> sends the status line and the
  headers, \<open>end\<close> finishes the response.
\<close>

definition res_write :: "8 word list \<Rightarrow> response \<Rightarrow> response" where
  "res_write c res = res\<lparr>headersSent := True, written := written res @ [Chunk c]\<rparr>"

definition res_end :: "response \<Rightarrow> response" where
  "res_end res = res\<lparr>headersSent := True, ended := True\<rparr>"

section \<open>The upstream and axios\<close>

text \<open>
  What a handler sends upstream: a GET of \<open>url\<close> with \<open>responseType: 'stream'\<close>,
  the headers and the timeout in milliseconds (\<open>None\<close> when the call sets none).
\<close>

record upstream_request =
  rq_url :: jsstring
  rq_headers :: "(string \<times> jsstring) list"
  rq_timeout :: "nat option"

text \<open>
  What comes back: no response at all (connection failure, timeout; the text is the
  message of the error), or the final response, after the redirects axios follows by
  itself: its status, its headers (\<open>response.headers\<close>, names in lower case) and its
  body, a readable stream that emits chunks and then ends or emits \<open>error\<close>.
\<close>

datatype stream_end = Finished | Errored jsstring

record upstream_response =
  up_status :: nat
  up_headers :: "(string \<times> jsstring) list"
  up_chunks :: "8 word list list"
  up_end :: stream_end

datatype upstream_reply = NoResponse jsstring | Response upstream_response

type_synonym upstream = "upstream_request \<Rightarrow> upstream_reply"

text \<open>
  \<open>await axios(config)\<close>: axios resolves with a response whose status is in the
  range of its default \<open>validateStatus\<close>, 200 to 299, and rejects otherwise.
  \<open>Inl\<close> is the rejection, with \<open>error.message\<close>.
\<close>

definition axios :: "upstream \<Rightarrow> upstream_request \<Rightarrow> jsstring + upstream_response" where
  "axios up rq =
     (case up rq of
        NoResponse msg \<Rightarrow> Inl msg
      | Response r \<Rightarrow>
          if 200 \<le> up_status r \<and> up_status r < 300 then Inr r
          else Inl (lit ''Request failed with status code '' @ show_nat (up_status r)))"

text \<open>
  \<open>readable.pipe(res)\<close>: each chunk the readable emits is written to the response.
  When the readable ends, \<open>pipe\<close> ends the response; when it emits \<open>error\<close>,
  \<open>pipe\<close> does nothing to the response, and the error goes to the listeners of the
  readable.
\<close>

definition pipe_chunks :: "8 word list list \<Rightarrow> response \<Rightarrow> response" where
  "pipe_chunks cs res = foldl (\<lambda>r c. res_write c r) res cs"

text \<open>
  What a request leaves behind: the response, the requests sent upstream, and the
  message of the error that nothing caught, if any: the error of the upstream body
  when it meets no listener, or the error a listener throws itself.
\<close>

record outcome =
  out_res :: response
  out_requests :: "upstream_request list"
  out_unhandled :: "jsstring option"

section \<open>The handlers of \<open>src/index.js\<close>\<close>

text \<open>
  The CORS middleware (lines 17 to 26) runs before every route. (So do the body
  parsers of lines 12 and 14, which pass a request without a body on as it is; they are
  not modelled.) It sets three headers;
  for an \<open>OPTIONS\<close> request it answers with \<open>res.sendStatus(200)\<close> and does not
  call \<open>next()\<close>, for any other method it calls \<open>next()\<close>. The second component
  says whether \<open>next()\<close> was called.
\<close>

definition cors_headers :: "response \<Rightarrow> response" where
  "cors_headers res =
     res_set ''Access-Control-Allow-Headers''
       (Some (lit ''Origin, X-Requested-With, Content-Type, Accept, Authorization''))
       (res_set ''Access-Control-Allow-Methods'' (Some (lit ''GET, POST, PUT, DELETE, OPTIONS''))
         (res_set ''Access-Control-Allow-Origin'' (Some (lit ''*'')) res))"

definition cors_middleware :: "request \<Rightarrow> response \<Rightarrow> response \<times> bool" where
  "cors_middleware req res =
     (if req_method req = lit ''OPTIONS'' then (res_sendStatus_200 (cors_headers res), False)
      else (cors_headers res, True))"

text \<open>The allow-list check of both proxy handlers (lines 406 and 464).\<close>

definition invalid_url :: "jsstring \<Rightarrow> bool" where
  "invalid_url u \<longleftrightarrow>
     u = [] \<or>
     (\<not> startsWith u (lit ''https://bcdnw.hakunaymatata.com/'') \<and>
      \<not> startsWith u (lit ''https://valiw.hakunaymatata.com/''))"

text \<open>
  The download handler, lines 403 to 456. \<open>download_catch\<close> is its \<open>catch\<close> block;
  an exception of \<open>decodeURIComponent\<close> (\<open>URIError\<close>, message \<open>URI malformed\<close>) and
  a rejection of axios both end there. The body is piped with no \<open>error\<close> listener
  on the upstream stream.
\<close>

definition download_catch ::
    "jsstring \<Rightarrow> upstream_request list \<Rightarrow> response \<Rightarrow> outcome" where
  "download_catch msg rqs res =
     \<lparr>out_res = res_json
              [(''status'', JNum 500), (''success'', JStr (lit ''false'')),
               (''creator'', JStr (lit ''GiftedTech'')),
               (''message'', JStr (lit ''Failed to proxy download'')),
               (''error'', JStr msg)]
              (res_status 500 res),
      out_requests = rqs, out_unhandled = None\<rparr>"

definition download_request :: "jsstring \<Rightarrow> upstream_request" where
  "download_request downloadUrl =
     \<lparr>rq_url = downloadUrl,
      rq_headers =
        [(''User-Agent'', lit ''okhttp/4.12.0''),
         (''Referer'', lit ''https://fmoviesunblocked.net/''),
         (''Origin'', lit ''https://fmoviesunblocked.net'')],
      rq_timeout = None\<rparr>"

definition download_handler :: "upstream \<Rightarrow> request \<Rightarrow> response \<Rightarrow> outcome" where
  "download_handler up req res =
     (case decodeURIComponent (replace_first (lit ''/api/download/'') [] (req_url req)) of
        None \<Rightarrow> download_catch (lit ''URI malformed'') [] res
      | Some downloadUrl \<Rightarrow>
          if invalid_url downloadUrl
          then \<lparr>out_res = res_json
                        [(''status'', JNum 400), (''success'', JStr (lit ''false'')),
                         (''creator'', JStr (lit ''GiftedTech'')),
                         (''message'', JStr (lit ''Invalid download URL''))]
                        (res_status 400 res),
                out_requests = [], out_unhandled = None\<rparr>
          else (case axios up (download_request downloadUrl) of
                  Inl msg \<Rightarrow> download_catch msg [download_request downloadUrl] res
                | Inr response \<Rightarrow>
                    (let filename =
                           download_filename (map_of (up_headers response) ''content-disposition'');
                         res1 =
                           res_set ''Content-Disposition''
                             (Some (lit ''attachment; filename=\"'' @ filename @ lit ''\"''))
                             (res_set ''Content-Length''
                               (map_of (up_headers response) ''content-length'')
                               (res_set ''Content-Type''
                                 (map_of (up_headers response) ''content-type'') res));
                         res2 = pipe_chunks (up_chunks response) res1
                     in (case up_end response of
                           Finished \<Rightarrow>
                             \<lparr>out_res = res_end res2,
                              out_requests = [download_request downloadUrl], out_unhandled = None\<rparr>
                         | Errored msg \<Rightarrow>
                             \<lparr>out_res = res2,
                              out_requests = [download_request downloadUrl],
                              out_unhandled = Some msg\<rparr>))))"

text \<open>
  The stream handler, lines 460 to 552. \<open>stream_catch\<close> is its \<open>catch\<close> block,
  \<open>stream_request\<close> the request of lines 474 to 495, \<open>stream_head\<close> the status and
  headers of lines 500 to 521, \<open>stream_relay\<close> the pipe of line 524 with the
  \<open>error\<close> listener of lines 527 to 535. The listener runs outside the \<open>try\<close>
  block: when its \<open>res.status(500).json(...)\<close> throws, the status is set, nothing is
  sent, and the error is the second component of \<open>stream_relay\<close>.
\<close>

definition stream_catch ::
    "jsstring \<Rightarrow> upstream_request list \<Rightarrow> response \<Rightarrow> outcome" where
  "stream_catch msg rqs res =
     \<lparr>out_res = (if \<not> headersSent res
             then res_json
                    [(''status'', JStr (lit ''error'')),
                     (''message'', JStr (lit ''Failed to proxy stream'')),
                     (''error'', JStr msg)]
                    (res_status 500 res)
             else res),
      out_requests = rqs, out_unhandled = None\<rparr>"

definition stream_request :: "jsstring \<Rightarrow> jsstring option \<Rightarrow> upstream_request" where
  "stream_request streamUrl rangeHeader =
     \<lparr>rq_url = streamUrl,
      rq_headers =
        [(''User-Agent'', lit ''okhttp/4.12.0''),
         (''Referer'', lit ''https://fmoviesunblocked.net/''),
         (''Origin'', lit ''https://fmoviesunblocked.net''),
         (''Accept'', lit ''*/*''),
         (''Accept-Encoding'', lit ''identity'')]
        @ (case rangeHeader of
             None \<Rightarrow> []
           | Some r \<Rightarrow> if r \<noteq> [] then [(''Range'', r)] else []),
      rq_timeout = Some 30000\<rparr>"

definition stream_head :: "upstream_response \<Rightarrow> response \<Rightarrow> response" where
  "stream_head response res =
     (let res1 =
            res_set ''Access-Control-Allow-Headers'' (Some (lit ''Range''))
              (res_set ''Access-Control-Allow-Origin'' (Some (lit ''*''))
                (res_set ''Accept-Ranges'' (Some (lit ''bytes''))
                  (res_set ''Cache-Control'' (Some (lit ''public, max-age=3600''))
                    (res_set ''Content-Disposition''
                      (Some (lit ''inline; filename=\"stream.mp4\"''))
                      (res_set ''Content-Type''
                        (map_of (up_headers response) ''content-type'') res)))))
      in if up_status response = 206
            \<and> truthy (map_of (up_headers response) ''content-range'')
         then res_set ''Content-Length'' (map_of (up_headers response) ''content-length'')
                (res_set ''Content-Range'' (map_of (up_headers response) ''content-range'')
                  (res_status 206 res1))
         else if up_status response = 200
            \<and> truthy (map_of (up_headers response) ''content-length'')
         then res_set ''Content-Length'' (map_of (up_headers response) ''content-length'')
                (res_status 200 res1)
         else res1)"

definition stream_relay ::
    "upstream_response \<Rightarrow> response \<Rightarrow> response \<times> jsstring option" where
  "stream_relay response res =
     (let res1 = pipe_chunks (up_chunks response) res
      in (case up_end response of
            Finished \<Rightarrow> (res_end res1, None)
          | Errored msg \<Rightarrow>
              if \<not> headersSent res1
              then (case json_error (res_status 500 res1) of
                      Some thrown \<Rightarrow> (res_status 500 res1, Some thrown)
                    | None \<Rightarrow>
                        (res_json
                           [(''status'', JStr (lit ''error'')),
                            (''message'', JStr (lit ''Stream error occurred''))]
                           (res_status 500 res1),
                         None))
              else (res1, None)))"

definition stream_handler :: "upstream \<Rightarrow> request \<Rightarrow> response \<Rightarrow> outcome" where
  "stream_handler up req res =
     (case decodeURIComponent (replace_first (lit ''/api/stream/'') [] (req_url req)) of
        None \<Rightarrow> stream_catch (lit ''URI malformed'') [] res
      | Some streamUrl \<Rightarrow>
          if invalid_url streamUrl
          then \<lparr>out_res = res_json
                        [(''status'', JStr (lit ''error'')),
                         (''message'', JStr (lit ''Invalid stream URL''))]
                        (res_status 400 res),
                out_requests = [], out_unhandled = None\<rparr>
          else (case axios up (stream_request streamUrl (req_range req)) of
                  Inl msg \<Rightarrow> stream_catch msg [stream_request streamUrl (req_range req)] res
                | Inr response \<Rightarrow>
                    if up_status response = 200 \<or> up_status response = 206
                    then \<lparr>out_res = fst (stream_relay response (stream_head response res)),
                          out_requests = [stream_request streamUrl (req_range req)],
                          out_unhandled =
                            snd (stream_relay response (stream_head response res))\<rparr>
                    else stream_catch
                           (lit ''Unexpected response status: '' @ show_nat (up_status response))
                           [stream_request streamUrl (req_range req)] res))"

text \<open>The handler registered for \<open>OPTIONS /api/stream/*\<close>, lines 555 to 560.\<close>

definition options_handler :: "request \<Rightarrow> response \<Rightarrow> response" where
  "options_handler req res =
     res_send_empty
       (res_status 200
         (res_set ''Access-Control-Allow-Headers'' (Some (lit ''Range''))
           (res_set ''Access-Control-Allow-Methods'' (Some (lit ''GET, OPTIONS''))
             (res_set ''Access-Control-Allow-Origin'' (Some (lit ''*'')) res))))"

text \<open>
  The error middleware, lines 564 to 573.
\<close>

definition error_middleware :: "jsstring \<Rightarrow> response \<Rightarrow> outcome" where
  "error_middleware msg res =
     \<lparr>out_res = res_json
                  [(''status'', JNum 500), (''success'', JStr (lit ''false'')),
                   (''creator'', JStr (lit ''GiftedTech'')),
                   (''message'', JStr (lit ''Internal server error'')),
                   (''error'', JStr msg)]
                  (res_status 500 res),
      out_requests = [], out_unhandled = None\<rparr>"

text \<open>
  The application, for the three routes of the proxy. Express runs the layers in the
  order of registration: the CORS middleware first, then, if it called \<open>next()\<close>, the
  route. Express matches a route against the path, the part of \<open>req.url\<close> before the
  first \<open>?\<close> (0x3F) or \<open>#\<close> (0x23), and decodes the text that \<open>*\<close> matches
  with \<open>decodeURIComponent\<close> before it calls the handler; when that throws, the
  handler is not called and the error, whose message is \<open>Failed to decode param\<close>
  followed by the text between two \<open>'\<close> (0x27), goes to the error middleware.
  \<open>route_segment\<close> is that text for a \<open>req.url\<close> that begins with the prefix as
  the route writes it, which is how lines 371 and 372 build the links. (Express also
  matches the prefix in another letter case; the text is then the same up to that
  prefix unless \<open>req.url\<close> holds the prefix a second time. For a \<open>req.url\<close> with
  a \<open>#\<close> Express takes the path from \<open>url.parse\<close>, which also turns each
  backslash before the \<open>#\<close> into \<open>/\<close>: the text then decodes in the same cases,
  and only the message may quote it differently.)

  \<open>get_api_download\<close> and \<open>get_api_stream\<close> are what a \<open>GET\<close> request matched
  by \<open>/api/download/*\<close> or \<open>/api/stream/*\<close> gets (the middleware sets its headers
  and calls \<open>next()\<close>, the method not being \<open>OPTIONS\<close>); \<open>options_api_stream\<close>
  is what a request matched by \<open>app.options('/api/stream/*')\<close> gets.
\<close>

definition route_segment :: "jsstring \<Rightarrow> jsstring \<Rightarrow> jsstring" where
  "route_segment prefix url =
     takeWhile (\<lambda>c. c \<noteq> 0x3F \<and> c \<noteq> 0x23) (replace_first prefix [] url)"

definition failed_to_decode :: "jsstring \<Rightarrow> jsstring" where
  "failed_to_decode segment = lit ''Failed to decode param '' @ 0x27 # segment @ [0x27]"

definition get_api_download :: "upstream \<Rightarrow> request \<Rightarrow> outcome" where
  "get_api_download up req =
     (case decodeURIComponent (route_segment (lit ''/api/download/'') (req_url req)) of
        None \<Rightarrow>
          error_middleware
            (failed_to_decode (route_segment (lit ''/api/download/'') (req_url req)))
            (cors_headers new_response)
      | Some param \<Rightarrow> download_handler up req (cors_headers new_response))"

definition get_api_stream :: "upstream \<Rightarrow> request \<Rightarrow> outcome" where
  "get_api_stream up req =
     (case decodeURIComponent (route_segment (lit ''/api/stream/'') (req_url req)) of
        None \<Rightarrow>
          error_middleware
            (failed_to_decode (route_segment (lit ''/api/stream/'') (req_url req)))
            (cors_headers new_response)
      | Some param \<Rightarrow> stream_handler up req (cors_headers new_response))"

definition options_api_stream :: "request \<Rightarrow> response" where
  "options_api_stream req =
     (case cors_middleware req new_response of
        (res, True) \<Rightarrow> options_handler req res
      | (res, False) \<Rightarrow> res)"

section \<open>Facts about the response operations\<close>

lemma map_of_setHeader:
  "map_of (setHeader k v hs) k' = (if k' = k then Some v else map_of hs k')"
  by (induction hs) auto

lemma getHeader_res_set:
  "getHeader (res_set k v r) k' =
     (if k' = k
      then Some (if k = ''Content-Type'' then content_type_value (js_String v) else js_String v)
      else getHeader r k')"
  by (simp add: getHeader_def res_set_def map_of_setHeader)

lemma res_set_fields:
  "statusCode (res_set k v r) = statusCode r"
  "headersSent (res_set k v r) = headersSent r"
  "written (res_set k v r) = written r"
  "ended (res_set k v r) = ended r"
  by (simp_all add: res_set_def)

lemma res_status_fields:
  "statusCode (res_status n r) = n"
  "headers (res_status n r) = headers r"
  "headersSent (res_status n r) = headersSent r"
  "written (res_status n r) = written r"
  "ended (res_status n r) = ended r"
  by (simp_all add: res_status_def)

lemma res_json_fields:
  "statusCode (res_json obj r) = statusCode r"
  "headers (res_json obj r) = headers r"
  "headersSent (res_json obj r) = True"
  "written (res_json obj r) = written r @ [Json obj]"
  "ended (res_json obj r) = True"
  by (simp_all add: res_json_def)

lemma cors_headers_fields:
  "statusCode (cors_headers r) = statusCode r"
  "headersSent (cors_headers r) = headersSent r"
  "written (cors_headers r) = written r"
  "ended (cors_headers r) = ended r"
  by (simp_all add: cors_headers_def res_set_fields)

lemma res_write_fields:
  "statusCode (res_write c r) = statusCode r"
  "headers (res_write c r) = headers r"
  "headersSent (res_write c r) = True"
  "written (res_write c r) = written r @ [Chunk c]"
  "ended (res_write c r) = ended r"
  by (simp_all add: res_write_def)

lemma res_end_fields:
  "statusCode (res_end r) = statusCode r"
  "headers (res_end r) = headers r"
  "headersSent (res_end r) = True"
  "written (res_end r) = written r"
  "ended (res_end r) = True"
  by (simp_all add: res_end_def)

lemma pipe_chunks_fields:
  "statusCode (pipe_chunks cs r) = statusCode r"
  "headers (pipe_chunks cs r) = headers r"
  "headersSent (pipe_chunks cs r) = (headersSent r \<or> cs \<noteq> [])"
  "written (pipe_chunks cs r) = written r @ map Chunk cs"
  "ended (pipe_chunks cs r) = ended r"
  unfolding pipe_chunks_def
  by (induction cs arbitrary: r) (auto simp: res_write_fields)

lemma getHeader_fields:
  "getHeader (res_status n r) k = getHeader r k"
  "getHeader (res_json obj r) k = getHeader r k"
  "getHeader (res_end r) k = getHeader r k"
  "getHeader (pipe_chunks cs r) k = getHeader r k"
  by (simp_all add: getHeader_def res_status_fields res_json_fields res_end_fields
      pipe_chunks_fields)

lemma lit_nonempty: "s \<noteq> [] \<Longrightarrow> lit s \<noteq> []"
  by (simp add: lit_def)

lemma startsWith_nonempty: "startsWith u p \<Longrightarrow> p \<noteq> [] \<Longrightarrow> u \<noteq> []"
  by (auto simp: startsWith_def)

lemma allowed_origin_valid:
  assumes "startsWith u (lit ''https://bcdnw.hakunaymatata.com/'')
         \<or> startsWith u (lit ''https://valiw.hakunaymatata.com/'')"
  shows "\<not> invalid_url u"
proof -
  from assms have "u \<noteq> []"
    by (auto dest!: startsWith_nonempty simp: lit_def)
  with assms show ?thesis
    by (auto simp: invalid_url_def)
qed

lemma fresh_response:
  "statusCode (cors_headers new_response) = 200"
  "headersSent (cors_headers new_response) = False"
  "written (cors_headers new_response) = []"
  "ended (cors_headers new_response) = False"
  by (simp_all add: cors_headers_fields new_response_def)

section \<open>Facts about the routes\<close>

text \<open>
  The path segment is a prefix of the text a handler decodes, cut before a \<open>?\<close> or a
  \<open>#\<close>, neither of which is part of an escape sequence: when the handler's text
  decodes, so does the segment, and the handler is reached.
\<close>

lemma hex_digit_not_separator: "hex_digit c = Some a \<Longrightarrow> c \<noteq> 0x3F \<and> c \<noteq> 0x23"
  by (auto simp: hex_digit_def split: if_splits)

lemma parse_hex_octet_not_separator:
  "parse_hex_octet h l = Some b \<Longrightarrow> (h \<noteq> 0x3F \<and> h \<noteq> 0x23) \<and> (l \<noteq> 0x3F \<and> l \<noteq> 0x23)"
  by (auto simp: parse_hex_octet_def split: option.splits dest: hex_digit_not_separator)

lemma continuation_octets_path:
  "continuation_octets n s = Some (bs, r) \<Longrightarrow>
   continuation_octets n (takeWhile (\<lambda>c. c \<noteq> 0x3F \<and> c \<noteq> 0x23) s)
     = Some (bs, takeWhile (\<lambda>c. c \<noteq> 0x3F \<and> c \<noteq> 0x23) r)"
proof (induction n s arbitrary: bs r rule: continuation_octets.induct)
  case (1 s)
  then show ?case by simp
next
  case (2 n p h l s)
  from "2.prems" obtain b bs' where p: "p = 0x25" and b: "parse_hex_octet h l = Some b"
    and rest: "continuation_octets n s = Some (bs', r)" and bs: "bs = b # bs'"
    by (auto split: if_splits option.splits)
  from b have "(h \<noteq> 0x3F \<and> h \<noteq> 0x23) \<and> (l \<noteq> 0x3F \<and> l \<noteq> 0x23)"
    by (rule parse_hex_octet_not_separator)
  moreover from "2.IH" [OF _ b rest] p
  have "continuation_octets n (takeWhile (\<lambda>c. c \<noteq> 0x3F \<and> c \<noteq> 0x23) s)
      = Some (bs', takeWhile (\<lambda>c. c \<noteq> 0x3F \<and> c \<noteq> 0x23) r)"
    by simp
  ultimately show ?case
    using p b bs by simp
qed simp_all

lemma decode_step_path:
  assumes "decode_step c s = Some (out, r)"
  shows "decode_step c (takeWhile (\<lambda>c. c \<noteq> 0x3F \<and> c \<noteq> 0x23) s)
     = Some (out, takeWhile (\<lambda>c. c \<noteq> 0x3F \<and> c \<noteq> 0x23) r)"
proof (cases "c = 0x25")
  case False
  with assms show ?thesis
    by (simp add: decode_step_def)
next
  case True
  with assms obtain h l r0 b where s: "s = h # l # r0" and b: "parse_hex_octet h l = Some b"
    by (auto simp: decode_step_def split: list.splits option.splits)
  from b have hl: "(h \<noteq> 0x3F \<and> h \<noteq> 0x23) \<and> (l \<noteq> 0x3F \<and> l \<noteq> 0x23)"
    by (rule parse_hex_octet_not_separator)
  show ?thesis
  proof (cases "leading_ones b = 0")
    case zero: True
    with assms True s b hl show ?thesis
      by (simp add: decode_step_def)
  next
    case False
    with assms True s b obtain bs v where
      n: "\<not> (leading_ones b = 1 \<or> 4 < leading_ones b)"
      and co: "continuation_octets (leading_ones b - 1) r0 = Some (bs, r)"
      and v: "utf8_code_point (b # bs) = Some v" and out: "out = utf16_encode v"
      by (auto simp: decode_step_def Let_def split: if_splits option.splits)
    from co have "continuation_octets (leading_ones b - 1)
          (takeWhile (\<lambda>c. c \<noteq> 0x3F \<and> c \<noteq> 0x23) r0)
        = Some (bs, takeWhile (\<lambda>c. c \<noteq> 0x3F \<and> c \<noteq> 0x23) r)"
      by (rule continuation_octets_path)
    with True s b hl False n v out show ?thesis
      by (simp add: decode_step_def Let_def)
  qed
qed

lemma decode_path:
  "decodeURIComponent s = Some d \<Longrightarrow>
   \<exists>d'. decodeURIComponent (takeWhile (\<lambda>c. c \<noteq> 0x3F \<and> c \<noteq> 0x23) s) = Some d'"
proof (induction s arbitrary: d rule: decodeURIComponent.induct)
  case 1
  then show ?case by simp
next
  case (2 c s)
  show ?case
  proof (cases "c \<noteq> 0x3F \<and> c \<noteq> 0x23")
    case False
    then show ?thesis by auto
  next
    case True
    from "2.prems" obtain out r d0 where step: "decode_step c s = Some (out, r)"
      and rest: "decodeURIComponent r = Some d0"
      by (auto split: option.splits)
    from "2.IH" [OF step refl rest] obtain d' where
      "decodeURIComponent (takeWhile (\<lambda>c. c \<noteq> 0x3F \<and> c \<noteq> 0x23) r) = Some d'"
      by blast
    with decode_step_path [OF step] True show ?thesis
      by simp
  qed
qed

lemma segment_decodes:
  "decodeURIComponent (replace_first prefix [] url) \<noteq> None \<Longrightarrow>
   decodeURIComponent (route_segment prefix url) \<noteq> None"
  unfolding route_segment_def using decode_path by fastforce

lemma get_api_download_handler:
  assumes "decodeURIComponent (replace_first (lit ''/api/download/'') [] (req_url req)) \<noteq> None"
  shows "get_api_download up req = download_handler up req (cors_headers new_response)"
proof -
  from assms
  have "decodeURIComponent (route_segment (lit ''/api/download/'') (req_url req)) \<noteq> None"
    by (rule segment_decodes)
  then show ?thesis
    by (auto simp: get_api_download_def split: option.splits)
qed

lemma get_api_stream_handler:
  assumes "decodeURIComponent (replace_first (lit ''/api/stream/'') [] (req_url req)) \<noteq> None"
  shows "get_api_stream up req = stream_handler up req (cors_headers new_response)"
proof -
  from assms
  have "decodeURIComponent (route_segment (lit ''/api/stream/'') (req_url req)) \<noteq> None"
    by (rule segment_decodes)
  then show ?thesis
    by (auto simp: get_api_stream_def split: option.splits)
qed

text \<open>
  A \<open>req.url\<close> made of the prefix of the route, a segment without \<open>?\<close> and
  \<open>#\<close>, and nothing more or a query string or fragment: the segment is what the
  route matches.
\<close>

lemma replace_first_prefix: "p \<noteq> [] \<Longrightarrow> replace_first p [] (p @ s) = s"
  by (cases p) (simp_all add: startsWith_def)

lemma route_segment_of_url:
  assumes "p \<noteq> []" and "0x3F \<notin> set segment" and "0x23 \<notin> set segment"
    and "rest = [] \<or> hd rest = 0x3F \<or> hd rest = 0x23"
  shows "route_segment p (p @ segment @ rest) = segment"
proof -
  from assms(2,3) have "\<forall>c \<in> set segment. c \<noteq> 0x3F \<and> c \<noteq> 0x23"
    by auto
  then have "takeWhile (\<lambda>c. c \<noteq> 0x3F \<and> c \<noteq> 0x23) (segment @ rest)
      = segment @ takeWhile (\<lambda>c. c \<noteq> 0x3F \<and> c \<noteq> 0x23) rest"
    by (simp add: takeWhile_append2)
  moreover from assms(4) have "takeWhile (\<lambda>c. c \<noteq> 0x3F \<and> c \<noteq> 0x23) rest = []"
    by (cases rest) auto
  ultimately show ?thesis
    using assms(1) by (simp add: route_segment_def replace_first_prefix)
qed

lemma error_middleware_fields:
  "statusCode (out_res (error_middleware msg (cors_headers new_response))) = 500"
  "written (out_res (error_middleware msg (cors_headers new_response))) =
     [Json [(''status'', JNum 500), (''success'', JStr (lit ''false'')),
            (''creator'', JStr (lit ''GiftedTech'')),
            (''message'', JStr (lit ''Internal server error'')),
            (''error'', JStr msg)]]"
  "ended (out_res (error_middleware msg (cors_headers new_response)))"
  "out_requests (error_middleware msg (cors_headers new_response)) = []"
  "out_unhandled (error_middleware msg (cors_headers new_response)) = None"
  by (simp_all add: error_middleware_def res_json_fields res_status_fields fresh_response)

section \<open>The allow-list\<close>



section \<open>The pre-flight request\<close>

text \<open>
  Claim C2. An \<open>OPTIONS\<close> request to \<open>/api/stream/*\<close> is answered by the CORS
  middleware of line 17, which is registered first and does not call \<open>next()\<close> for
  this method: the status is 200, but the body is the text \<open>OK\<close> and
  \<open>Access-Control-Allow-Headers\<close> is the list of the middleware, not \<open>Range\<close>.
  The handler of line 555, which would answer with an empty body and
  \<open>Access-Control-Allow-Headers: Range\<close>, is never reached.
\<close>

theorem options_preflight_answered_by_cors_middleware:
  "statusCode (options_api_stream
      \<lparr>req_method = lit ''OPTIONS'', req_url = lit ''/api/stream/x'', req_range = None\<rparr>)
     = 200
   \<and> written (options_api_stream
      \<lparr>req_method = lit ''OPTIONS'', req_url = lit ''/api/stream/x'', req_range = None\<rparr>)
     = [Text (lit ''OK'')]
   \<and> getHeader (options_api_stream
      \<lparr>req_method = lit ''OPTIONS'', req_url = lit ''/api/stream/x'', req_range = None\<rparr>)
      ''Access-Control-Allow-Headers''
     = Some (lit ''Origin, X-Requested-With, Content-Type, Accept, Authorization'')
   \<and> written (options_handler
         \<lparr>req_method = lit ''OPTIONS'', req_url = lit ''/api/stream/x'', req_range = None\<rparr>
         (cors_headers new_response)) = []
   \<and> getHeader (options_handler
         \<lparr>req_method = lit ''OPTIONS'', req_url = lit ''/api/stream/x'', req_range = None\<rparr>
         (cors_headers new_response)) ''Access-Control-Allow-Headers'' = Some (lit ''Range'')"
proof -
  let ?req = "\<lparr>req_method = lit ''OPTIONS'', req_url = lit ''/api/stream/x'',
      req_range = None\<rparr>"
  have answered: "options_api_stream ?req = res_sendStatus_200 (cors_headers new_response)"
    by (simp add: options_api_stream_def cors_middleware_def)
  have "statusCode (options_api_stream ?req) = 200"
    and "written (options_api_stream ?req) = [Text (lit ''OK'')]"
    by (simp_all add: answered res_sendStatus_200_def fresh_response)
  moreover have "getHeader (options_api_stream ?req) ''Access-Control-Allow-Headers''
      = Some (lit ''Origin, X-Requested-With, Content-Type, Accept, Authorization'')"
    by (simp add: answered res_sendStatus_200_def getHeader_def cors_headers_def res_set_def
        map_of_setHeader js_String_def)
  moreover have "written (options_handler ?req (cors_headers new_response)) = []"
    by (simp add: options_handler_def res_send_empty_def res_status_fields res_set_fields
        fresh_response)
  moreover have "getHeader (options_handler ?req (cors_headers new_response))
      ''Access-Control-Allow-Headers'' = Some (lit ''Range'')"
    by (simp add: options_handler_def res_send_empty_def getHeader_def res_status_def
        res_set_def map_of_setHeader js_String_def)
  ultimately show ?thesis
    by simp
qed

section \<open>Malformed percent-encoding\<close>

text \<open>
  Claim C3, as stated: a path segment that \<open>decodeURIComponent\<close> cannot decode is
  rejected with status 400. It is not: for the segment \<open>%E0%A4%A\<close>, whose last
  escape is cut short, both endpoints answer with status 500.
\<close>

theorem malformed_path_segment_status_500:
  "decodeURIComponent (lit ''%E0%A4%A'') = None
   \<and> route_segment (lit ''/api/download/'') (lit ''/api/download/%E0%A4%A'') = lit ''%E0%A4%A''
   \<and> route_segment (lit ''/api/stream/'') (lit ''/api/stream/%E0%A4%A'') = lit ''%E0%A4%A''
   \<and> statusCode (out_res (get_api_download (\<lambda>rq. NoResponse [])
         \<lparr>req_method = lit ''GET'', req_url = lit ''/api/download/%E0%A4%A'',
          req_range = None\<rparr>)) = 500
   \<and> statusCode (out_res (get_api_stream (\<lambda>rq. NoResponse [])
         \<lparr>req_method = lit ''GET'', req_url = lit ''/api/stream/%E0%A4%A'',
          req_range = None\<rparr>)) = 500"
proof -
  have malformed: "decodeURIComponent (lit ''%E0%A4%A'') = None"
    by code_simp
  have download: "route_segment (lit ''/api/download/'') (lit ''/api/download/%E0%A4%A'')
      = lit ''%E0%A4%A''"
    by code_simp
  have stream: "route_segment (lit ''/api/stream/'') (lit ''/api/stream/%E0%A4%A'')
      = lit ''%E0%A4%A''"
    by code_simp
  show ?thesis
    by (simp add: malformed download stream get_api_download_def get_api_stream_def
        error_middleware_fields)
qed

text \<open>
  The handlers decode more than the path segment: \<open>req.url\<close> without the prefix,
  query string included. When the segment decodes and that text does not, the handler
  runs, \<open>decodeURIComponent\<close> throws inside its \<open>try\<close> block, and its
  \<open>catch\<close> block answers.
\<close>

lemma malformed_query_string_caught:
  assumes "decodeURIComponent (route_segment (lit ''/api/download/'') (req_url rd)) \<noteq> None"
    and "decodeURIComponent (replace_first (lit ''/api/download/'') [] (req_url rd)) = None"
    and "decodeURIComponent (route_segment (lit ''/api/stream/'') (req_url rs)) \<noteq> None"
    and "decodeURIComponent (replace_first (lit ''/api/stream/'') [] (req_url rs)) = None"
  shows "get_api_download up rd =
           download_catch (lit ''URI malformed'') [] (cors_headers new_response)"
    and "get_api_stream up rs =
           stream_catch (lit ''URI malformed'') [] (cors_headers new_response)"
  using assms
  by (auto simp: get_api_download_def get_api_stream_def download_handler_def
      stream_handler_def)

text \<open>
  Claim C3, amended. A path segment that \<open>decodeURIComponent\<close> cannot decode never
  reaches a proxy handler: Express fails to decode the parameter of the route and the
  error middleware of line 564 answers, for both endpoints, with status 500 and its
  JSON body, whose \<open>error\<close> field is the message \<open>Failed to decode param\<close> with
  the segment in quotes. The response is complete, nothing is sent upstream and no
  error is left unhandled.
\<close>

theorem malformed_path_segment_answered_by_error_middleware:
  assumes malformed: "decodeURIComponent segment = None"
    and no_question_mark: "0x3F \<notin> set segment"
    and no_hash: "0x23 \<notin> set segment"
    and rest: "rest = [] \<or> hd rest = 0x3F \<or> hd rest = 0x23"
    and download: "req_url rd = lit ''/api/download/'' @ segment @ rest"
    and stream: "req_url rs = lit ''/api/stream/'' @ segment @ rest"
  shows "statusCode (out_res (get_api_download up rd)) = 500
       \<and> written (out_res (get_api_download up rd)) =
           [Json [(''status'', JNum 500), (''success'', JStr (lit ''false'')),
                  (''creator'', JStr (lit ''GiftedTech'')),
                  (''message'', JStr (lit ''Internal server error'')),
                  (''error'', JStr (failed_to_decode segment))]]
       \<and> ended (out_res (get_api_download up rd))
       \<and> out_requests (get_api_download up rd) = []
       \<and> out_unhandled (get_api_download up rd) = None
       \<and> statusCode (out_res (get_api_stream up rs)) = 500
       \<and> written (out_res (get_api_stream up rs)) =
           [Json [(''status'', JNum 500), (''success'', JStr (lit ''false'')),
                  (''creator'', JStr (lit ''GiftedTech'')),
                  (''message'', JStr (lit ''Internal server error'')),
                  (''error'', JStr (failed_to_decode segment))]]
       \<and> ended (out_res (get_api_stream up rs))
       \<and> out_requests (get_api_stream up rs) = []
       \<and> out_unhandled (get_api_stream up rs) = None"
proof -
  have "lit ''/api/download/'' \<noteq> []" and "lit ''/api/stream/'' \<noteq> []"
    by (simp_all add: lit_def)
  with no_question_mark no_hash rest download stream
  have "route_segment (lit ''/api/download/'') (req_url rd) = segment"
    and "route_segment (lit ''/api/stream/'') (req_url rs) = segment"
    by (simp_all add: route_segment_of_url)
  with malformed
  have "get_api_download up rd =
          error_middleware (failed_to_decode segment) (cors_headers new_response)"
    and "get_api_stream up rs =
          error_middleware (failed_to_decode segment) (cors_headers new_response)"
    by (simp_all add: get_api_download_def get_api_stream_def)
  then show ?thesis
    by (simp add: error_middleware_fields)
qed

theorem malformed_path_segment_answered_by_error_middleware_witness:
  "decodeURIComponent (lit ''%E0%A4%A'') = None
   \<and> statusCode (out_res (get_api_download (\<lambda>rq. NoResponse [])
         \<lparr>req_method = lit ''GET'', req_url = lit ''/api/download/%E0%A4%A'',
          req_range = None\<rparr>)) = 500
   \<and> written (out_res (get_api_download (\<lambda>rq. NoResponse [])
         \<lparr>req_method = lit ''GET'', req_url = lit ''/api/download/%E0%A4%A'',
          req_range = None\<rparr>)) =
           [Json [(''status'', JNum 500), (''success'', JStr (lit ''false'')),
                  (''creator'', JStr (lit ''GiftedTech'')),
                  (''message'', JStr (lit ''Internal server error'')),
                  (''error'', JStr (failed_to_decode (lit ''%E0%A4%A'')))]]
   \<and> out_requests (get_api_download (\<lambda>rq. NoResponse [])
         \<lparr>req_method = lit ''GET'', req_url = lit ''/api/download/%E0%A4%A'',
          req_range = None\<rparr>) = []
   \<and> statusCode (out_res (get_api_stream (\<lambda>rq. NoResponse [])
         \<lparr>req_method = lit ''GET'', req_url = lit ''/api/stream/%E0%A4%A?t=1'',
          req_range = None\<rparr>)) = 500
   \<and> out_requests (get_api_stream (\<lambda>rq. NoResponse [])
         \<lparr>req_method = lit ''GET'', req_url = lit ''/api/stream/%E0%A4%A?t=1'',
          req_range = None\<rparr>) = []"
proof -
  let ?rd = "\<lparr>req_method = lit ''GET'', req_url = lit ''/api/download/%E0%A4%A'',
          req_range = None\<rparr>"
  let ?rd' = "\<lparr>req_method = lit ''GET'', req_url = lit ''/api/download/%E0%A4%A?t=1'',
          req_range = None\<rparr>"
  let ?rs = "\<lparr>req_method = lit ''GET'', req_url = lit ''/api/stream/%E0%A4%A'',
          req_range = None\<rparr>"
  let ?rs' = "\<lparr>req_method = lit ''GET'', req_url = lit ''/api/stream/%E0%A4%A?t=1'',
          req_range = None\<rparr>"
  have h1: "decodeURIComponent (lit ''%E0%A4%A'') = None"
    by code_simp
  have h2: "0x3F \<notin> set (lit ''%E0%A4%A'')"
    by code_simp
  have h3: "0x23 \<notin> set (lit ''%E0%A4%A'')"
    by code_simp
  have h4: "[] = [] \<or> hd [] = (0x3F :: code_unit) \<or> hd [] = (0x23 :: code_unit)"
    by simp
  have h4': "lit ''?t=1'' = [] \<or> hd (lit ''?t=1'') = 0x3F \<or> hd (lit ''?t=1'') = 0x23"
    by code_simp
  have h5: "req_url ?rd = lit ''/api/download/'' @ lit ''%E0%A4%A'' @ []"
    by code_simp
  have h5': "req_url ?rd' = lit ''/api/download/'' @ lit ''%E0%A4%A'' @ lit ''?t=1''"
    by code_simp
  have h6: "req_url ?rs = lit ''/api/stream/'' @ lit ''%E0%A4%A'' @ []"
    by code_simp
  have h6': "req_url ?rs' = lit ''/api/stream/'' @ lit ''%E0%A4%A'' @ lit ''?t=1''"
    by code_simp
  from malformed_path_segment_answered_by_error_middleware [OF h1 h2 h3 h4 h5 h6,
      of "\<lambda>rq. NoResponse []"]
  have one: "statusCode (out_res (get_api_download (\<lambda>rq. NoResponse []) ?rd)) = 500
      \<and> written (out_res (get_api_download (\<lambda>rq. NoResponse []) ?rd)) =
           [Json [(''status'', JNum 500), (''success'', JStr (lit ''false'')),
                  (''creator'', JStr (lit ''GiftedTech'')),
                  (''message'', JStr (lit ''Internal server error'')),
                  (''error'', JStr (failed_to_decode (lit ''%E0%A4%A'')))]]
      \<and> out_requests (get_api_download (\<lambda>rq. NoResponse []) ?rd) = []"
    by blast
  from malformed_path_segment_answered_by_error_middleware [OF h1 h2 h3 h4' h5' h6',
      of "\<lambda>rq. NoResponse []"]
  have two: "statusCode (out_res (get_api_stream (\<lambda>rq. NoResponse []) ?rs')) = 500
      \<and> out_requests (get_api_stream (\<lambda>rq. NoResponse []) ?rs') = []"
    by blast
  from h1 one two show ?thesis
    by blast
qed

section \<open>Upstream statuses other than 200 and 206\<close>

text \<open>
  Claim C6. For a stream request whose URL is valid (it decodes and starts with one of
  the two allowed prefixes), an upstream response with a status other than 200 and 206
  is not relayed: the downstream response has status 500 and its whole body is the JSON
  error object of the \<open>catch\<close> block. A status outside 200 to 299 makes axios reject;
  another status of that range makes the handler throw.
\<close>

theorem unexpected_status_is_500:
  assumes decoded:
      "decodeURIComponent (replace_first (lit ''/api/stream/'') [] (req_url req))
         = Some streamUrl"
    and allowed: "startsWith streamUrl (lit ''https://bcdnw.hakunaymatata.com/'')
         \<or> startsWith streamUrl (lit ''https://valiw.hakunaymatata.com/'')"
    and reply: "up (stream_request streamUrl (req_range req)) = Response r"
    and not_200: "up_status r \<noteq> 200"
    and not_206: "up_status r \<noteq> 206"
  shows "statusCode (out_res (get_api_stream up req)) = 500
       \<and> (\<exists>msg. written (out_res (get_api_stream up req)) =
             [Json [(''status'', JStr (lit ''error'')),
                    (''message'', JStr (lit ''Failed to proxy stream'')),
                    (''error'', JStr msg)]])
       \<and> ended (out_res (get_api_stream up req))
       \<and> out_requests (get_api_stream up req) = [stream_request streamUrl (req_range req)]"
proof -
  from allowed have valid: "\<not> invalid_url streamUrl"
    by (rule allowed_origin_valid)
  obtain msg where
    "get_api_stream up req =
       stream_catch msg [stream_request streamUrl (req_range req)] (cors_headers new_response)"
  proof (cases "200 \<le> up_status r \<and> up_status r < 300")
    case True
    with decoded valid reply not_200 not_206 show ?thesis
      by (intro that [of "lit ''Unexpected response status: '' @ show_nat (up_status r)"])
         (simp add: get_api_stream_handler stream_handler_def axios_def)
  next
    case False
    with decoded valid reply show ?thesis
      by (intro that [of "lit ''Request failed with status code '' @ show_nat (up_status r)"])
         (auto simp add: get_api_stream_handler stream_handler_def axios_def)
  qed
  then show ?thesis
    by (simp add: stream_catch_def fresh_response res_json_fields res_status_fields)
qed

theorem unexpected_status_is_500_witness:
  "up_status \<lparr>up_status = 204, up_headers = [], up_chunks = [[1, 2, 3]], up_end = Finished\<rparr>
     \<noteq> 200
   \<and> up_status \<lparr>up_status = 204, up_headers = [], up_chunks = [[1, 2, 3]], up_end = Finished\<rparr>
     \<noteq> 206
   \<and> statusCode (out_res (get_api_stream
         (\<lambda>rq. Response
            \<lparr>up_status = 204, up_headers = [], up_chunks = [[1, 2, 3]], up_end = Finished\<rparr>)
         \<lparr>req_method = lit ''GET'',
          req_url = lit ''/api/stream/https%3A%2F%2Fbcdnw.hakunaymatata.com%2Fv.mp4'',
          req_range = None\<rparr>)) = 500
   \<and> ended (out_res (get_api_stream
         (\<lambda>rq. Response
            \<lparr>up_status = 204, up_headers = [], up_chunks = [[1, 2, 3]], up_end = Finished\<rparr>)
         \<lparr>req_method = lit ''GET'',
          req_url = lit ''/api/stream/https%3A%2F%2Fbcdnw.hakunaymatata.com%2Fv.mp4'',
          req_range = None\<rparr>))"
proof -
  let ?r = "\<lparr>up_status = 204, up_headers = [], up_chunks = [[1, 2, 3]], up_end = Finished\<rparr>"
  let ?req = "\<lparr>req_method = lit ''GET'',
          req_url = lit ''/api/stream/https%3A%2F%2Fbcdnw.hakunaymatata.com%2Fv.mp4'',
          req_range = None\<rparr>"
  have h1: "decodeURIComponent (replace_first (lit ''/api/stream/'') [] (req_url ?req))
      = Some (lit ''https://bcdnw.hakunaymatata.com/v.mp4'')"
    by code_simp
  have h2: "startsWith (lit ''https://bcdnw.hakunaymatata.com/v.mp4'')
        (lit ''https://bcdnw.hakunaymatata.com/'')
      \<or> startsWith (lit ''https://bcdnw.hakunaymatata.com/v.mp4'')
        (lit ''https://valiw.hakunaymatata.com/'')"
    by code_simp
  have h3: "(\<lambda>rq. Response ?r)
      (stream_request (lit ''https://bcdnw.hakunaymatata.com/v.mp4'') (req_range ?req))
      = Response ?r"
    by simp
  have h4: "up_status ?r \<noteq> 200"
    by simp
  have h5: "up_status ?r \<noteq> 206"
    by simp
  show ?thesis
    using h4 h5 unexpected_status_is_500 [OF h1 h2 h3 h4 h5]
    by simp
qed

section \<open>The JSON error bodies\<close>



lemma stream_head_fields:
  "headersSent (stream_head r h) = headersSent h"
  "written (stream_head r h) = written h"
  "ended (stream_head r h) = ended h"
  by (simp_all add: stream_head_def Let_def res_set_fields res_status_fields)





section \<open>Facts about the stream relay\<close>

lemma truthy_js_String: "truthy v \<Longrightarrow> Some (js_String v) = v"
  by (cases v) (simp_all add: truthy_def js_String_def)

lemma get_api_stream_relayed:
  assumes "decodeURIComponent (replace_first (lit ''/api/stream/'') [] (req_url req))
         = Some streamUrl"
    and "startsWith streamUrl (lit ''https://bcdnw.hakunaymatata.com/'')
         \<or> startsWith streamUrl (lit ''https://valiw.hakunaymatata.com/'')"
    and "up (stream_request streamUrl (req_range req)) = Response r"
    and "up_status r = 200 \<or> up_status r = 206"
  shows "get_api_stream up req =
           \<lparr>out_res = fst (stream_relay r (stream_head r (cors_headers new_response))),
            out_requests = [stream_request streamUrl (req_range req)],
            out_unhandled = snd (stream_relay r (stream_head r (cors_headers new_response)))\<rparr>"
proof -
  from assms(2) have "\<not> invalid_url streamUrl"
    by (rule allowed_origin_valid)
  moreover from assms(3,4) have "axios up (stream_request streamUrl (req_range req)) = Inr r"
    by (auto simp: axios_def)
  ultimately show ?thesis
    using assms(1,4) by (simp add: get_api_stream_handler stream_handler_def)
qed

lemma get_api_stream_requests:
  assumes "decodeURIComponent (replace_first (lit ''/api/stream/'') [] (req_url req))
         = Some streamUrl"
    and "startsWith streamUrl (lit ''https://bcdnw.hakunaymatata.com/'')
         \<or> startsWith streamUrl (lit ''https://valiw.hakunaymatata.com/'')"
  shows "out_requests (get_api_stream up req) = [stream_request streamUrl (req_range req)]"
proof -
  from assms(2) have "\<not> invalid_url streamUrl"
    by (rule allowed_origin_valid)
  with assms(1) show ?thesis
    by (simp add: get_api_stream_handler stream_handler_def stream_catch_def
        split: sum.splits)
qed

lemma stream_relay_flowing:
  assumes "up_chunks r \<noteq> [] \<or> up_end r = Finished"
  shows "statusCode (fst (stream_relay r h)) = statusCode h"
    and "getHeader (fst (stream_relay r h)) k = getHeader h k"
    and "written (fst (stream_relay r h)) = written h @ map Chunk (up_chunks r)"
    and "headersSent (fst (stream_relay r h))"
    and "snd (stream_relay r h) = None"
  using assms
  by (auto simp: stream_relay_def Let_def res_end_fields pipe_chunks_fields getHeader_fields
      split: stream_end.splits)

lemma stream_head_status:
  "statusCode (stream_head r h) =
     (if up_status r = 206 \<and> truthy (map_of (up_headers r) ''content-range'') then 206
      else if up_status r = 200 \<and> truthy (map_of (up_headers r) ''content-length'') then 200
      else statusCode h)"
  by (simp add: stream_head_def Let_def res_set_fields res_status_fields)

lemma stream_head_content_range:
  "getHeader (stream_head r h) ''Content-Range'' =
     (if up_status r = 206 \<and> truthy (map_of (up_headers r) ''content-range'')
      then map_of (up_headers r) ''content-range''
      else getHeader h ''Content-Range'')"
  by (simp add: stream_head_def Let_def getHeader_res_set getHeader_fields truthy_js_String)

lemma stream_head_content_length:
  "getHeader (stream_head r h) ''Content-Length'' =
     (if up_status r = 206 \<and> truthy (map_of (up_headers r) ''content-range'')
      then Some (js_String (map_of (up_headers r) ''content-length''))
      else if up_status r = 200 \<and> truthy (map_of (up_headers r) ''content-length'')
      then map_of (up_headers r) ''content-length''
      else getHeader h ''Content-Length'')"
  by (simp add: stream_head_def Let_def getHeader_res_set getHeader_fields truthy_js_String)

lemma stream_head_fixed_headers:
  "getHeader (stream_head r h) ''Content-Type'' =
     Some (content_type_value (js_String (map_of (up_headers r) ''content-type'')))"
  "getHeader (stream_head r h) ''Content-Disposition'' =
     Some (lit ''inline; filename=\"stream.mp4\"'')"
  "getHeader (stream_head r h) ''Cache-Control'' = Some (lit ''public, max-age=3600'')"
  "getHeader (stream_head r h) ''Accept-Ranges'' = Some (lit ''bytes'')"
  "getHeader (stream_head r h) ''Access-Control-Allow-Origin'' = Some (lit ''*'')"
  "getHeader (stream_head r h) ''Access-Control-Allow-Headers'' = Some (lit ''Range'')"
  by (simp_all add: stream_head_def Let_def getHeader_res_set getHeader_fields js_String_def)

lemma fresh_response_headers:
  "getHeader (cors_headers new_response) ''Content-Range'' = None"
  "getHeader (cors_headers new_response) ''Content-Length'' = None"
  by (simp_all add: cors_headers_def getHeader_res_set)
     (simp_all add: getHeader_def new_response_def)

lemma stream_request_range:
  "map_of (rq_headers (stream_request u rng)) ''Range'' = (if truthy rng then rng else None)"
  by (simp add: stream_request_def truthy_def split: option.splits)

lemma stream_status_206_only:
  assumes "statusCode (out_res (get_api_stream up req)) = 206"
  shows "\<exists>u r. up (stream_request u (req_range req)) = Response r \<and> up_status r = 206
          \<and> truthy (map_of (up_headers r) ''content-range'')"
proof -
  have relay: "statusCode (fst (stream_relay r h)) = statusCode h
      \<or> statusCode (fst (stream_relay r h)) = 500"
    for r h
    by (simp add: stream_relay_def Let_def res_end_fields pipe_chunks_fields res_json_fields
        res_status_fields split: stream_end.splits option.splits)
  from assms have handler: "get_api_stream up req
      = stream_handler up req (cors_headers new_response)"
    by (cases "decodeURIComponent (route_segment (lit ''/api/stream/'') (req_url req))")
       (simp_all add: get_api_stream_def error_middleware_fields)
  show ?thesis
  proof (cases "decodeURIComponent (replace_first (lit ''/api/stream/'') [] (req_url req))")
    case None
    with assms show ?thesis
      by (simp add: handler stream_handler_def stream_catch_def fresh_response
          res_json_fields res_status_fields)
  next
    case (Some u)
    show ?thesis
    proof (cases "axios up (stream_request u (req_range req))")
      case (Inl msg)
      with Some assms show ?thesis
        by (simp add: handler stream_handler_def stream_catch_def fresh_response
            res_json_fields res_status_fields split: if_splits)
    next
      case (Inr r)
      then have reply: "up (stream_request u (req_range req)) = Response r"
        by (auto simp: axios_def split: upstream_reply.splits if_splits)
      from Some Inr assms
      have "statusCode (fst (stream_relay r (stream_head r (cors_headers new_response)))) = 206"
        by (simp add: handler stream_handler_def stream_catch_def fresh_response
            res_json_fields res_status_fields split: if_splits)
      with relay [of r "stream_head r (cors_headers new_response)"]
      have "statusCode (stream_head r (cors_headers new_response)) = 206"
        by auto
      then have "up_status r = 206 \<and> truthy (map_of (up_headers r) ''content-range'')"
        by (simp add: stream_head_status fresh_response split: if_splits)
      with reply show ?thesis
        by blast
    qed
  qed
qed

lemma stream_relay_error_after_chunk:
  assumes "up_end r = Errored msg" and "up_chunks r \<noteq> []"
  shows "stream_relay r h = (pipe_chunks (up_chunks r) h, None)"
  using assms by (simp add: stream_relay_def Let_def pipe_chunks_fields)

text \<open>
  When the body of the upstream fails before its first chunk, the listener calls
  \<open>res.status(500).json(...)\<close> on a response whose \<open>Content-Type\<close> is what line
  501 stored: \<open>res.json\<close> sends the body when \<open>setCharset\<close> accepts that value,
  and throws otherwise.
\<close>

lemma stream_head_json_error:
  "json_error (res_status 500 (stream_head r h)) =
     (if content_type_value (js_String (map_of (up_headers r) ''content-type'')) = [] then None
      else setCharset_error
             (content_type_value (js_String (map_of (up_headers r) ''content-type''))))"
  by (simp add: json_error_def getHeader_fields stream_head_fixed_headers)

lemma stream_relay_error_before_chunk:
  assumes "up_end r = Errored msg" and "up_chunks r = []" and "\<not> headersSent h"
    and "json_error (res_status 500 h) = None"
  shows "stream_relay r h =
     (res_json [(''status'', JStr (lit ''error'')),
                (''message'', JStr (lit ''Stream error occurred''))]
        (res_status 500 h), None)"
  using assms by (simp add: stream_relay_def Let_def pipe_chunks_def)

lemma stream_relay_listener_throws:
  assumes "up_end r = Errored msg" and "up_chunks r = []" and "\<not> headersSent h"
    and "json_error (res_status 500 h) = Some thrown"
  shows "stream_relay r h = (res_status 500 h, Some thrown)"
  using assms by (simp add: stream_relay_def Let_def pipe_chunks_def)

section \<open>Range forwarding and full content\<close>

text \<open>
  Claim C4, as stated: an inbound request that carries a \<open>Range\<close> header has it
  forwarded. The handler tests \<open>req.headers.range\<close> for truth, and the empty string
  is false: a request whose \<open>Range\<close> header has an empty value is sent upstream
  without a \<open>Range\<close> header.
\<close>

theorem empty_range_header_not_forwarded:
  "req_range \<lparr>req_method = lit ''GET'',
        req_url = lit ''/api/stream/https%3A%2F%2Fbcdnw.hakunaymatata.com%2Fv.mp4'',
        req_range = Some []\<rparr> = Some []
   \<and> map (\<lambda>rq. map_of (rq_headers rq) ''Range'')
       (out_requests (get_api_stream
          (\<lambda>rq. Response
             \<lparr>up_status = 200, up_headers = [(''content-length'', lit ''3'')],
              up_chunks = [[1, 2, 3]], up_end = Finished\<rparr>)
          \<lparr>req_method = lit ''GET'',
           req_url = lit ''/api/stream/https%3A%2F%2Fbcdnw.hakunaymatata.com%2Fv.mp4'',
           req_range = Some []\<rparr>))
     = [None]"
proof -
  let ?req = "\<lparr>req_method = lit ''GET'',
        req_url = lit ''/api/stream/https%3A%2F%2Fbcdnw.hakunaymatata.com%2Fv.mp4'',
        req_range = Some []\<rparr>"
  let ?u = "lit ''https://bcdnw.hakunaymatata.com/v.mp4''"
  have h1: "decodeURIComponent (replace_first (lit ''/api/stream/'') [] (req_url ?req)) = Some ?u"
    by code_simp
  have h2: "startsWith ?u (lit ''https://bcdnw.hakunaymatata.com/'')
      \<or> startsWith ?u (lit ''https://valiw.hakunaymatata.com/'')"
    by code_simp
  show ?thesis
    by (simp add: get_api_stream_requests [OF h1 h2] stream_request_range truthy_def)
qed

text \<open>
  Claim C4, amended. For a stream request with a valid URL the handler sends exactly one
  request upstream; its \<open>Range\<close> header is the inbound one when that is present and
  not empty, and it has none otherwise. When the upstream answers 200 and its body
  yields a chunk or ends (an upstream body that fails before that is the matter of
  claim C8), the downstream status is 200 and \<open>Content-Length\<close> is the upstream
  value, when the upstream sends one that is not empty, and is not set otherwise.
\<close>

theorem range_forwarded_when_non_empty:
  assumes decoded:
      "decodeURIComponent (replace_first (lit ''/api/stream/'') [] (req_url req))
         = Some streamUrl"
    and allowed: "startsWith streamUrl (lit ''https://bcdnw.hakunaymatata.com/'')
         \<or> startsWith streamUrl (lit ''https://valiw.hakunaymatata.com/'')"
  shows "map (\<lambda>rq. map_of (rq_headers rq) ''Range'') (out_requests (get_api_stream up req))
           = [if truthy (req_range req) then req_range req else None]
       \<and> (\<forall>r. up (stream_request streamUrl (req_range req)) = Response r
              \<and> up_status r = 200 \<and> (up_chunks r \<noteq> [] \<or> up_end r = Finished) \<longrightarrow>
            statusCode (out_res (get_api_stream up req)) = 200
            \<and> getHeader (out_res (get_api_stream up req)) ''Content-Length''
                = (if truthy (map_of (up_headers r) ''content-length'')
                   then map_of (up_headers r) ''content-length'' else None))"
proof (intro conjI allI impI)
  show "map (\<lambda>rq. map_of (rq_headers rq) ''Range'') (out_requests (get_api_stream up req))
           = [if truthy (req_range req) then req_range req else None]"
    using get_api_stream_requests [of req streamUrl up, OF decoded allowed]
    by (simp add: stream_request_range)
next
  fix r
  assume r: "up (stream_request streamUrl (req_range req)) = Response r
      \<and> up_status r = 200 \<and> (up_chunks r \<noteq> [] \<or> up_end r = Finished)"
  then have "up (stream_request streamUrl (req_range req)) = Response r"
    and "up_status r = 200 \<or> up_status r = 206"
    by simp_all
  with decoded allowed
  have "get_api_stream up req =
      \<lparr>out_res = fst (stream_relay r (stream_head r (cors_headers new_response))),
       out_requests = [stream_request streamUrl (req_range req)],
       out_unhandled = snd (stream_relay r (stream_head r (cors_headers new_response)))\<rparr>"
    by (rule get_api_stream_relayed)
  then have out: "out_res (get_api_stream up req)
      = fst (stream_relay r (stream_head r (cors_headers new_response)))"
    by simp
  from r have flows: "up_chunks r \<noteq> [] \<or> up_end r = Finished"
    by simp
  from r show "statusCode (out_res (get_api_stream up req)) = 200"
    by (simp add: out stream_relay_flowing [OF flows] stream_head_status fresh_response)
  from r show "getHeader (out_res (get_api_stream up req)) ''Content-Length''
      = (if truthy (map_of (up_headers r) ''content-length'')
         then map_of (up_headers r) ''content-length'' else None)"
    by (simp add: out stream_relay_flowing [OF flows] stream_head_content_length
        fresh_response_headers)
qed

theorem range_forwarded_when_non_empty_witness:
  "map (\<lambda>rq. map_of (rq_headers rq) ''Range'')
       (out_requests (get_api_stream
          (\<lambda>rq. Response
             \<lparr>up_status = 206, up_headers = [], up_chunks = [], up_end = Finished\<rparr>)
          \<lparr>req_method = lit ''GET'',
           req_url = lit ''/api/stream/https%3A%2F%2Fbcdnw.hakunaymatata.com%2Fv.mp4'',
           req_range = Some (lit ''bytes=100-199'')\<rparr>))
     = [Some (lit ''bytes=100-199'')]
   \<and> map (\<lambda>rq. map_of (rq_headers rq) ''Range'')
       (out_requests (get_api_stream
          (\<lambda>rq. Response
             \<lparr>up_status = 200, up_headers = [(''content-length'', lit ''1000'')],
              up_chunks = [[1, 2, 3]], up_end = Finished\<rparr>)
          \<lparr>req_method = lit ''GET'',
           req_url = lit ''/api/stream/https%3A%2F%2Fbcdnw.hakunaymatata.com%2Fv.mp4'',
           req_range = None\<rparr>))
     = [None]
   \<and> statusCode (out_res (get_api_stream
          (\<lambda>rq. Response
             \<lparr>up_status = 200, up_headers = [(''content-length'', lit ''1000'')],
              up_chunks = [[1, 2, 3]], up_end = Finished\<rparr>)
          \<lparr>req_method = lit ''GET'',
           req_url = lit ''/api/stream/https%3A%2F%2Fbcdnw.hakunaymatata.com%2Fv.mp4'',
           req_range = None\<rparr>)) = 200
   \<and> getHeader (out_res (get_api_stream
          (\<lambda>rq. Response
             \<lparr>up_status = 200, up_headers = [(''content-length'', lit ''1000'')],
              up_chunks = [[1, 2, 3]], up_end = Finished\<rparr>)
          \<lparr>req_method = lit ''GET'',
           req_url = lit ''/api/stream/https%3A%2F%2Fbcdnw.hakunaymatata.com%2Fv.mp4'',
           req_range = None\<rparr>)) ''Content-Length'' = Some (lit ''1000'')"
proof -
  let ?url = "lit ''/api/stream/https%3A%2F%2Fbcdnw.hakunaymatata.com%2Fv.mp4''"
  let ?u = "lit ''https://bcdnw.hakunaymatata.com/v.mp4''"
  let ?ra = "\<lparr>req_method = lit ''GET'', req_url = ?url,
       req_range = Some (lit ''bytes=100-199'')\<rparr>"
  let ?rb = "\<lparr>req_method = lit ''GET'', req_url = ?url, req_range = None\<rparr>"
  let ?r = "\<lparr>up_status = 200, up_headers = [(''content-length'', lit ''1000'')],
       up_chunks = [[1, 2, 3]], up_end = Finished\<rparr>"
  have da: "decodeURIComponent (replace_first (lit ''/api/stream/'') [] (req_url ?ra)) = Some ?u"
    by code_simp
  have db: "decodeURIComponent (replace_first (lit ''/api/stream/'') [] (req_url ?rb)) = Some ?u"
    by code_simp
  have al: "startsWith ?u (lit ''https://bcdnw.hakunaymatata.com/'')
      \<or> startsWith ?u (lit ''https://valiw.hakunaymatata.com/'')"
    by code_simp
  have ta: "truthy (req_range ?ra)"
    by code_simp
  have tl: "truthy (map_of (up_headers ?r) ''content-length'')"
    by code_simp
  note a = range_forwarded_when_non_empty [OF da al,
      of "\<lambda>rq. Response \<lparr>up_status = 206, up_headers = [], up_chunks = [],
        up_end = Finished\<rparr>"]
  note b = range_forwarded_when_non_empty [OF db al, of "\<lambda>rq. Response ?r"]
  from a ta have "map (\<lambda>rq. map_of (rq_headers rq) ''Range'')
       (out_requests (get_api_stream
          (\<lambda>rq. Response \<lparr>up_status = 206, up_headers = [], up_chunks = [],
             up_end = Finished\<rparr>) ?ra))
     = [Some (lit ''bytes=100-199'')]"
    by simp
  moreover from b have "map (\<lambda>rq. map_of (rq_headers rq) ''Range'')
       (out_requests (get_api_stream (\<lambda>rq. Response ?r) ?rb)) = [None]"
    by (simp add: truthy_def)
  moreover from b have "statusCode (out_res (get_api_stream (\<lambda>rq. Response ?r) ?rb)) = 200
      \<and> getHeader (out_res (get_api_stream (\<lambda>rq. Response ?r) ?rb)) ''Content-Length''
        = (if truthy (map_of (up_headers ?r) ''content-length'')
           then map_of (up_headers ?r) ''content-length'' else None)"
    by simp
  ultimately show ?thesis
    using tl by simp
qed

section \<open>Partial content\<close>

text \<open>
  Claim C5, as stated: every upstream 206 gives a downstream 206 with
  \<open>Content-Range\<close> and \<open>Content-Length\<close>. The handler sets the status 206 and
  these two headers only when the upstream response has a \<open>content-range\<close> header
  (line 510); without it the response keeps the default status 200.
\<close>

theorem upstream_206_without_content_range_stays_200:
  "up_status \<lparr>up_status = 206,
       up_headers = [(''content-type'', lit ''video/mp4''), (''content-length'', lit ''3'')],
       up_chunks = [[1, 2, 3]], up_end = Finished\<rparr> = 206
   \<and> statusCode (out_res (get_api_stream
          (\<lambda>rq. Response
             \<lparr>up_status = 206,
              up_headers = [(''content-type'', lit ''video/mp4''), (''content-length'', lit ''3'')],
              up_chunks = [[1, 2, 3]], up_end = Finished\<rparr>)
          \<lparr>req_method = lit ''GET'',
           req_url = lit ''/api/stream/https%3A%2F%2Fvaliw.hakunaymatata.com%2Fv.mp4'',
           req_range = Some (lit ''bytes=0-2'')\<rparr>)) = 200
   \<and> getHeader (out_res (get_api_stream
          (\<lambda>rq. Response
             \<lparr>up_status = 206,
              up_headers = [(''content-type'', lit ''video/mp4''), (''content-length'', lit ''3'')],
              up_chunks = [[1, 2, 3]], up_end = Finished\<rparr>)
          \<lparr>req_method = lit ''GET'',
           req_url = lit ''/api/stream/https%3A%2F%2Fvaliw.hakunaymatata.com%2Fv.mp4'',
           req_range = Some (lit ''bytes=0-2'')\<rparr>)) ''Content-Range'' = None
   \<and> getHeader (out_res (get_api_stream
          (\<lambda>rq. Response
             \<lparr>up_status = 206,
              up_headers = [(''content-type'', lit ''video/mp4''), (''content-length'', lit ''3'')],
              up_chunks = [[1, 2, 3]], up_end = Finished\<rparr>)
          \<lparr>req_method = lit ''GET'',
           req_url = lit ''/api/stream/https%3A%2F%2Fvaliw.hakunaymatata.com%2Fv.mp4'',
           req_range = Some (lit ''bytes=0-2'')\<rparr>)) ''Content-Length'' = None"
proof -
  let ?r = "\<lparr>up_status = 206,
       up_headers = [(''content-type'', lit ''video/mp4''), (''content-length'', lit ''3'')],
       up_chunks = [[1, 2, 3]], up_end = Finished\<rparr>"
  let ?req = "\<lparr>req_method = lit ''GET'',
       req_url = lit ''/api/stream/https%3A%2F%2Fvaliw.hakunaymatata.com%2Fv.mp4'',
       req_range = Some (lit ''bytes=0-2'')\<rparr>"
  let ?u = "lit ''https://valiw.hakunaymatata.com/v.mp4''"
  have h1: "decodeURIComponent (replace_first (lit ''/api/stream/'') [] (req_url ?req)) = Some ?u"
    by code_simp
  have h2: "startsWith ?u (lit ''https://bcdnw.hakunaymatata.com/'')
      \<or> startsWith ?u (lit ''https://valiw.hakunaymatata.com/'')"
    by code_simp
  have h3: "(\<lambda>rq. Response ?r) (stream_request ?u (req_range ?req)) = Response ?r"
    by simp
  have h4: "up_status ?r = 200 \<or> up_status ?r = 206"
    by simp
  have flows: "up_chunks ?r \<noteq> [] \<or> up_end ?r = Finished"
    by simp
  have no_range: "\<not> truthy (map_of (up_headers ?r) ''content-range'')"
    by (simp add: truthy_def)
  from get_api_stream_relayed [OF h1 h2 h3 h4]
  have out: "out_res (get_api_stream (\<lambda>rq. Response ?r) ?req)
      = fst (stream_relay ?r (stream_head ?r (cors_headers new_response)))"
    by simp
  show ?thesis
    unfolding out
    using no_range
    by (simp add: stream_relay_flowing [OF flows] stream_head_status
        stream_head_content_range stream_head_content_length fresh_response
        fresh_response_headers)
qed

text \<open>
  Claim C5, amended. For a stream request with a valid URL, when the upstream answers
  206 with a \<open>content-range\<close> header that is not empty and its body yields a chunk or
  ends, the downstream response has status 206, \<open>Content-Range\<close> is the upstream
  value, \<open>Content-Length\<close> is the upstream value when the upstream sends one,
  \<open>Content-Type\<close> is the upstream value when the upstream sends one (as
  \<open>res.set\<close> stores it: a text type without a charset gets \<open>; charset=utf-8\<close>
  appended), \<open>Content-Disposition\<close> is \<open>inline; filename="stream.mp4"\<close>,
  \<open>Cache-Control\<close> is \<open>public, max-age=3600\<close>, \<open>Accept-Ranges\<close> is
  \<open>bytes\<close>, and the body is the upstream chunks.
\<close>

theorem partial_content_with_content_range:
  assumes decoded:
      "decodeURIComponent (replace_first (lit ''/api/stream/'') [] (req_url req))
         = Some streamUrl"
    and allowed: "startsWith streamUrl (lit ''https://bcdnw.hakunaymatata.com/'')
         \<or> startsWith streamUrl (lit ''https://valiw.hakunaymatata.com/'')"
    and reply: "up (stream_request streamUrl (req_range req)) = Response r"
    and partial: "up_status r = 206"
    and content_range: "truthy (map_of (up_headers r) ''content-range'')"
    and flows: "up_chunks r \<noteq> [] \<or> up_end r = Finished"
  shows "statusCode (out_res (get_api_stream up req)) = 206
       \<and> getHeader (out_res (get_api_stream up req)) ''Content-Range''
           = map_of (up_headers r) ''content-range''
       \<and> (\<forall>len. map_of (up_headers r) ''content-length'' = Some len \<longrightarrow>
            getHeader (out_res (get_api_stream up req)) ''Content-Length'' = Some len)
       \<and> (\<forall>type. map_of (up_headers r) ''content-type'' = Some type \<longrightarrow>
            getHeader (out_res (get_api_stream up req)) ''Content-Type''
              = Some (content_type_value type))
       \<and> getHeader (out_res (get_api_stream up req)) ''Content-Disposition''
           = Some (lit ''inline; filename=\"stream.mp4\"'')
       \<and> getHeader (out_res (get_api_stream up req)) ''Cache-Control''
           = Some (lit ''public, max-age=3600'')
       \<and> getHeader (out_res (get_api_stream up req)) ''Accept-Ranges'' = Some (lit ''bytes'')
       \<and> written (out_res (get_api_stream up req)) = map Chunk (up_chunks r)"
proof -
  from partial have "up_status r = 200 \<or> up_status r = 206"
    by simp
  with decoded allowed reply
  have "get_api_stream up req =
      \<lparr>out_res = fst (stream_relay r (stream_head r (cors_headers new_response))),
       out_requests = [stream_request streamUrl (req_range req)],
       out_unhandled = snd (stream_relay r (stream_head r (cors_headers new_response)))\<rparr>"
    by (rule get_api_stream_relayed)
  then have out: "out_res (get_api_stream up req)
      = fst (stream_relay r (stream_head r (cors_headers new_response)))"
    by simp
  show ?thesis
    using partial content_range
    by (simp add: out stream_relay_flowing [OF flows] stream_head_status
        stream_head_content_range stream_head_content_length stream_head_fixed_headers
        stream_head_fields fresh_response js_String_def)
qed

theorem partial_content_with_content_range_witness:
  "statusCode (out_res (get_api_stream
      (\<lambda>rq. Response
         \<lparr>up_status = 206,
          up_headers = [(''content-type'', lit ''video/mp4''),
                        (''content-range'', lit ''bytes 100-199/1000''),
                        (''content-length'', lit ''100'')],
          up_chunks = [[7, 7], [8]], up_end = Finished\<rparr>)
      \<lparr>req_method = lit ''GET'',
       req_url = lit ''/api/stream/https%3A%2F%2Fbcdnw.hakunaymatata.com%2Fv.mp4'',
       req_range = Some (lit ''bytes=100-199'')\<rparr>)) = 206
   \<and> getHeader (out_res (get_api_stream
      (\<lambda>rq. Response
         \<lparr>up_status = 206,
          up_headers = [(''content-type'', lit ''video/mp4''),
                        (''content-range'', lit ''bytes 100-199/1000''),
                        (''content-length'', lit ''100'')],
          up_chunks = [[7, 7], [8]], up_end = Finished\<rparr>)
      \<lparr>req_method = lit ''GET'',
       req_url = lit ''/api/stream/https%3A%2F%2Fbcdnw.hakunaymatata.com%2Fv.mp4'',
       req_range = Some (lit ''bytes=100-199'')\<rparr>)) ''Content-Range''
     = Some (lit ''bytes 100-199/1000'')
   \<and> getHeader (out_res (get_api_stream
      (\<lambda>rq. Response
         \<lparr>up_status = 206,
          up_headers = [(''content-type'', lit ''video/mp4''),
                        (''content-range'', lit ''bytes 100-199/1000''),
                        (''content-length'', lit ''100'')],
          up_chunks = [[7, 7], [8]], up_end = Finished\<rparr>)
      \<lparr>req_method = lit ''GET'',
       req_url = lit ''/api/stream/https%3A%2F%2Fbcdnw.hakunaymatata.com%2Fv.mp4'',
       req_range = Some (lit ''bytes=100-199'')\<rparr>)) ''Content-Length''
     = Some (lit ''100'')
   \<and> getHeader (out_res (get_api_stream
      (\<lambda>rq. Response
         \<lparr>up_status = 206,
          up_headers = [(''content-type'', lit ''video/mp4''),
                        (''content-range'', lit ''bytes 100-199/1000''),
                        (''content-length'', lit ''100'')],
          up_chunks = [[7, 7], [8]], up_end = Finished\<rparr>)
      \<lparr>req_method = lit ''GET'',
       req_url = lit ''/api/stream/https%3A%2F%2Fbcdnw.hakunaymatata.com%2Fv.mp4'',
       req_range = Some (lit ''bytes=100-199'')\<rparr>)) ''Content-Type''
     = Some (lit ''video/mp4'')"
proof -
  let ?r = "\<lparr>up_status = 206,
          up_headers = [(''content-type'', lit ''video/mp4''),
                        (''content-range'', lit ''bytes 100-199/1000''),
                        (''content-length'', lit ''100'')],
          up_chunks = [[7, 7], [8]], up_end = Finished\<rparr>"
  let ?req = "\<lparr>req_method = lit ''GET'',
       req_url = lit ''/api/stream/https%3A%2F%2Fbcdnw.hakunaymatata.com%2Fv.mp4'',
       req_range = Some (lit ''bytes=100-199'')\<rparr>"
  let ?u = "lit ''https://bcdnw.hakunaymatata.com/v.mp4''"
  have h1: "decodeURIComponent (replace_first (lit ''/api/stream/'') [] (req_url ?req)) = Some ?u"
    by code_simp
  have h2: "startsWith ?u (lit ''https://bcdnw.hakunaymatata.com/'')
      \<or> startsWith ?u (lit ''https://valiw.hakunaymatata.com/'')"
    by code_simp
  have h3: "(\<lambda>rq. Response ?r) (stream_request ?u (req_range ?req)) = Response ?r"
    by simp
  have h4: "up_status ?r = 206"
    by simp
  have h5: "truthy (map_of (up_headers ?r) ''content-range'')"
    by code_simp
  have h6: "up_chunks ?r \<noteq> [] \<or> up_end ?r = Finished"
    by simp
  have v1: "map_of (up_headers ?r) ''content-range'' = Some (lit ''bytes 100-199/1000'')"
    by simp
  have v2: "map_of (up_headers ?r) ''content-length'' = Some (lit ''100'')"
    by simp
  have v3: "map_of (up_headers ?r) ''content-type'' = Some (lit ''video/mp4'')"
    by simp
  have v4: "content_type_value (lit ''video/mp4'') = lit ''video/mp4''"
    by code_simp
  note t = partial_content_with_content_range [OF h1 h2 h3 h4 h5 h6]
  from t have "statusCode (out_res (get_api_stream (\<lambda>rq. Response ?r) ?req)) = 206"
    by blast
  moreover from t v1
  have "getHeader (out_res (get_api_stream (\<lambda>rq. Response ?r) ?req)) ''Content-Range''
      = Some (lit ''bytes 100-199/1000'')"
    by simp
  moreover from t v2
  have "getHeader (out_res (get_api_stream (\<lambda>rq. Response ?r) ?req)) ''Content-Length''
      = Some (lit ''100'')"
    by blast
  moreover from t v3
  have "getHeader (out_res (get_api_stream (\<lambda>rq. Response ?r) ?req)) ''Content-Type''
      = Some (content_type_value (lit ''video/mp4''))"
    by blast
  ultimately show ?thesis
    unfolding v4 by blast
qed

text \<open>
  Claim C10, as stated: every upstream 206 without a \<open>content-range\<close> header gives
  a downstream 200 with the body relayed. Not when the body of the upstream fails
  before its first chunk: the listener of line 527 then answers with status 500 and a
  JSON body.
\<close>

theorem upstream_206_body_error_answered_500:
  "up_status \<lparr>up_status = 206, up_headers = [(''content-type'', lit ''video/mp4'')],
       up_chunks = [], up_end = Errored (lit ''aborted'')\<rparr> = 206
   \<and> map_of (up_headers \<lparr>up_status = 206, up_headers = [(''content-type'', lit ''video/mp4'')],
       up_chunks = [], up_end = Errored (lit ''aborted'')\<rparr>) ''content-range'' = None
   \<and> statusCode (out_res (get_api_stream
          (\<lambda>rq. Response
             \<lparr>up_status = 206, up_headers = [(''content-type'', lit ''video/mp4'')],
              up_chunks = [], up_end = Errored (lit ''aborted'')\<rparr>)
          \<lparr>req_method = lit ''GET'',
           req_url = lit ''/api/stream/https%3A%2F%2Fvaliw.hakunaymatata.com%2Fv.mp4'',
           req_range = Some (lit ''bytes=0-2'')\<rparr>)) = 500
   \<and> written (out_res (get_api_stream
          (\<lambda>rq. Response
             \<lparr>up_status = 206, up_headers = [(''content-type'', lit ''video/mp4'')],
              up_chunks = [], up_end = Errored (lit ''aborted'')\<rparr>)
          \<lparr>req_method = lit ''GET'',
           req_url = lit ''/api/stream/https%3A%2F%2Fvaliw.hakunaymatata.com%2Fv.mp4'',
           req_range = Some (lit ''bytes=0-2'')\<rparr>))
     = [Json [(''status'', JStr (lit ''error'')),
              (''message'', JStr (lit ''Stream error occurred''))]]"
proof -
  let ?r = "\<lparr>up_status = 206, up_headers = [(''content-type'', lit ''video/mp4'')],
       up_chunks = [], up_end = Errored (lit ''aborted'')\<rparr>"
  let ?req = "\<lparr>req_method = lit ''GET'',
       req_url = lit ''/api/stream/https%3A%2F%2Fvaliw.hakunaymatata.com%2Fv.mp4'',
       req_range = Some (lit ''bytes=0-2'')\<rparr>"
  let ?u = "lit ''https://valiw.hakunaymatata.com/v.mp4''"
  have h1: "decodeURIComponent (replace_first (lit ''/api/stream/'') [] (req_url ?req)) = Some ?u"
    by code_simp
  have h2: "startsWith ?u (lit ''https://bcdnw.hakunaymatata.com/'')
      \<or> startsWith ?u (lit ''https://valiw.hakunaymatata.com/'')"
    by code_simp
  have h3: "(\<lambda>rq. Response ?r) (stream_request ?u (req_range ?req)) = Response ?r"
    by simp
  have h4: "up_status ?r = 200 \<or> up_status ?r = 206"
    by simp
  have type: "content_type_value (lit ''video/mp4'') = lit ''video/mp4''"
    by code_simp
  have accepted: "setCharset_error (lit ''video/mp4'') = None"
    by code_simp
  have "json_error (res_status 500 (stream_head ?r (cors_headers new_response))) = None"
    by (simp add: stream_head_json_error js_String_def type accepted)
  then have relay: "stream_relay ?r (stream_head ?r (cors_headers new_response))
      = (res_json [(''status'', JStr (lit ''error'')),
                   (''message'', JStr (lit ''Stream error occurred''))]
           (res_status 500 (stream_head ?r (cors_headers new_response))), None)"
    by (intro stream_relay_error_before_chunk [of _ "lit ''aborted''"])
       (simp_all add: stream_head_fields fresh_response)
  from get_api_stream_relayed [OF h1 h2 h3 h4]
  have out: "out_res (get_api_stream (\<lambda>rq. Response ?r) ?req)
      = fst (stream_relay ?r (stream_head ?r (cors_headers new_response)))"
    by simp
  show ?thesis
    unfolding out relay
    by (simp add: res_json_fields res_status_fields stream_head_fields fresh_response)
qed

text \<open>
  Claim C10, amended. For a stream request with a valid URL, when the upstream answers
  206 without a \<open>content-range\<close> header (or with an empty one) and its body yields a
  chunk or ends, the downstream response keeps the default status 200 and has neither
  \<open>Content-Range\<close> nor \<open>Content-Length\<close>, and its body is the upstream chunks.
  And whenever the stream endpoint answers 206, the upstream answered 206 with a
  \<open>content-range\<close> header that is not empty.
\<close>

theorem partial_content_without_content_range:
  assumes decoded:
      "decodeURIComponent (replace_first (lit ''/api/stream/'') [] (req_url req))
         = Some streamUrl"
    and allowed: "startsWith streamUrl (lit ''https://bcdnw.hakunaymatata.com/'')
         \<or> startsWith streamUrl (lit ''https://valiw.hakunaymatata.com/'')"
    and reply: "up (stream_request streamUrl (req_range req)) = Response r"
    and partial: "up_status r = 206"
    and no_content_range: "\<not> truthy (map_of (up_headers r) ''content-range'')"
    and flows: "up_chunks r \<noteq> [] \<or> up_end r = Finished"
  shows "statusCode (out_res (get_api_stream up req)) = 200
       \<and> getHeader (out_res (get_api_stream up req)) ''Content-Range'' = None
       \<and> getHeader (out_res (get_api_stream up req)) ''Content-Length'' = None
       \<and> written (out_res (get_api_stream up req)) = map Chunk (up_chunks r)
       \<and> (\<forall>up' req'. statusCode (out_res (get_api_stream up' req')) = 206 \<longrightarrow>
            (\<exists>u r'. up' (stream_request u (req_range req')) = Response r'
                \<and> up_status r' = 206 \<and> truthy (map_of (up_headers r') ''content-range'')))"
proof -
  from partial have "up_status r = 200 \<or> up_status r = 206"
    by simp
  with decoded allowed reply
  have "get_api_stream up req =
      \<lparr>out_res = fst (stream_relay r (stream_head r (cors_headers new_response))),
       out_requests = [stream_request streamUrl (req_range req)],
       out_unhandled = snd (stream_relay r (stream_head r (cors_headers new_response)))\<rparr>"
    by (rule get_api_stream_relayed)
  then have out: "out_res (get_api_stream up req)
      = fst (stream_relay r (stream_head r (cors_headers new_response)))"
    by simp
  have "statusCode (out_res (get_api_stream up req)) = 200
       \<and> getHeader (out_res (get_api_stream up req)) ''Content-Range'' = None
       \<and> getHeader (out_res (get_api_stream up req)) ''Content-Length'' = None
       \<and> written (out_res (get_api_stream up req)) = map Chunk (up_chunks r)"
    using partial no_content_range
    by (simp add: out stream_relay_flowing [OF flows] stream_head_status
        stream_head_content_range stream_head_content_length stream_head_fields
        fresh_response fresh_response_headers)
  then show ?thesis
    using stream_status_206_only by blast
qed

theorem partial_content_without_content_range_witness:
  "statusCode (out_res (get_api_stream
      (\<lambda>rq. Response
         \<lparr>up_status = 206, up_headers = [(''content-length'', lit ''100'')],
          up_chunks = [[9]], up_end = Finished\<rparr>)
      \<lparr>req_method = lit ''GET'',
       req_url = lit ''/api/stream/https%3A%2F%2Fbcdnw.hakunaymatata.com%2Fv.mp4'',
       req_range = Some (lit ''bytes=100-199'')\<rparr>)) = 200
   \<and> getHeader (out_res (get_api_stream
      (\<lambda>rq. Response
         \<lparr>up_status = 206, up_headers = [(''content-length'', lit ''100'')],
          up_chunks = [[9]], up_end = Finished\<rparr>)
      \<lparr>req_method = lit ''GET'',
       req_url = lit ''/api/stream/https%3A%2F%2Fbcdnw.hakunaymatata.com%2Fv.mp4'',
       req_range = Some (lit ''bytes=100-199'')\<rparr>)) ''Content-Range'' = None
   \<and> getHeader (out_res (get_api_stream
      (\<lambda>rq. Response
         \<lparr>up_status = 206, up_headers = [(''content-length'', lit ''100'')],
          up_chunks = [[9]], up_end = Finished\<rparr>)
      \<lparr>req_method = lit ''GET'',
       req_url = lit ''/api/stream/https%3A%2F%2Fbcdnw.hakunaymatata.com%2Fv.mp4'',
       req_range = Some (lit ''bytes=100-199'')\<rparr>)) ''Content-Length'' = None
   \<and> written (out_res (get_api_stream
      (\<lambda>rq. Response
         \<lparr>up_status = 206, up_headers = [(''content-length'', lit ''100'')],
          up_chunks = [[9]], up_end = Finished\<rparr>)
      \<lparr>req_method = lit ''GET'',
       req_url = lit ''/api/stream/https%3A%2F%2Fbcdnw.hakunaymatata.com%2Fv.mp4'',
       req_range = Some (lit ''bytes=100-199'')\<rparr>)) = [Chunk [9]]"
proof -
  let ?r = "\<lparr>up_status = 206, up_headers = [(''content-length'', lit ''100'')],
          up_chunks = [[9]], up_end = Finished\<rparr>"
  let ?req = "\<lparr>req_method = lit ''GET'',
       req_url = lit ''/api/stream/https%3A%2F%2Fbcdnw.hakunaymatata.com%2Fv.mp4'',
       req_range = Some (lit ''bytes=100-199'')\<rparr>"
  let ?u = "lit ''https://bcdnw.hakunaymatata.com/v.mp4''"
  have h1: "decodeURIComponent (replace_first (lit ''/api/stream/'') [] (req_url ?req)) = Some ?u"
    by code_simp
  have h2: "startsWith ?u (lit ''https://bcdnw.hakunaymatata.com/'')
      \<or> startsWith ?u (lit ''https://valiw.hakunaymatata.com/'')"
    by code_simp
  have h3: "(\<lambda>rq. Response ?r) (stream_request ?u (req_range ?req)) = Response ?r"
    by simp
  have h4: "up_status ?r = 206"
    by simp
  have h5: "\<not> truthy (map_of (up_headers ?r) ''content-range'')"
    by code_simp
  have h6: "up_chunks ?r \<noteq> [] \<or> up_end ?r = Finished"
    by simp
  have v: "map Chunk (up_chunks ?r) = [Chunk [9]]"
    by simp
  from partial_content_without_content_range [OF h1 h2 h3 h4 h5 h6] show ?thesis
    unfolding v by blast
qed

section \<open>Failures of the upstream\<close>

text \<open>
  Claim C8, as stated: when the upstream body fails after the headers have been sent,
  the handler terminates the response. The listener of lines 527 to 535 does nothing in
  that case, \<open>pipe\<close> does not end its destination when the source fails, and the
  source never calls \<open>res.end\<close> or \<open>res.destroy\<close>: the response is left open.
\<close>

theorem stream_error_after_headers_leaves_response_open:
  "headersSent (out_res (get_api_stream
      (\<lambda>rq. Response
         \<lparr>up_status = 200, up_headers = [(''content-length'', lit ''6'')],
          up_chunks = [[1, 2, 3]], up_end = Errored (lit ''aborted'')\<rparr>)
      \<lparr>req_method = lit ''GET'',
       req_url = lit ''/api/stream/https%3A%2F%2Fbcdnw.hakunaymatata.com%2Fv.mp4'',
       req_range = None\<rparr>))
   \<and> written (out_res (get_api_stream
      (\<lambda>rq. Response
         \<lparr>up_status = 200, up_headers = [(''content-length'', lit ''6'')],
          up_chunks = [[1, 2, 3]], up_end = Errored (lit ''aborted'')\<rparr>)
      \<lparr>req_method = lit ''GET'',
       req_url = lit ''/api/stream/https%3A%2F%2Fbcdnw.hakunaymatata.com%2Fv.mp4'',
       req_range = None\<rparr>)) = [Chunk [1, 2, 3]]
   \<and> \<not> ended (out_res (get_api_stream
      (\<lambda>rq. Response
         \<lparr>up_status = 200, up_headers = [(''content-length'', lit ''6'')],
          up_chunks = [[1, 2, 3]], up_end = Errored (lit ''aborted'')\<rparr>)
      \<lparr>req_method = lit ''GET'',
       req_url = lit ''/api/stream/https%3A%2F%2Fbcdnw.hakunaymatata.com%2Fv.mp4'',
       req_range = None\<rparr>))"
proof -
  let ?r = "\<lparr>up_status = 200, up_headers = [(''content-length'', lit ''6'')],
          up_chunks = [[1, 2, 3]], up_end = Errored (lit ''aborted'')\<rparr>"
  let ?req = "\<lparr>req_method = lit ''GET'',
       req_url = lit ''/api/stream/https%3A%2F%2Fbcdnw.hakunaymatata.com%2Fv.mp4'',
       req_range = None\<rparr>"
  let ?u = "lit ''https://bcdnw.hakunaymatata.com/v.mp4''"
  have h1: "decodeURIComponent (replace_first (lit ''/api/stream/'') [] (req_url ?req)) = Some ?u"
    by code_simp
  have h2: "startsWith ?u (lit ''https://bcdnw.hakunaymatata.com/'')
      \<or> startsWith ?u (lit ''https://valiw.hakunaymatata.com/'')"
    by code_simp
  have h3: "(\<lambda>rq. Response ?r) (stream_request ?u (req_range ?req)) = Response ?r"
    by simp
  have h4: "up_status ?r = 200 \<or> up_status ?r = 206"
    by simp
  from get_api_stream_relayed [OF h1 h2 h3 h4]
  have out: "out_res (get_api_stream (\<lambda>rq. Response ?r) ?req)
      = fst (stream_relay ?r (stream_head ?r (cors_headers new_response)))"
    by simp
  have relay: "stream_relay ?r (stream_head ?r (cors_headers new_response))
      = (pipe_chunks (up_chunks ?r) (stream_head ?r (cors_headers new_response)), None)"
    by (rule stream_relay_error_after_chunk [of _ "lit ''aborted''"]) simp_all
  show ?thesis
    unfolding out relay
    by (simp add: pipe_chunks_fields stream_head_fields fresh_response)
qed

text \<open>
  The listener itself fails when the upstream sent no \<open>content-type\<close>: line 501
  stored the text \<open>undefined\<close> as \<open>Content-Type\<close>, \<open>res.json\<close> throws
  \<open>invalid media type\<close>, and the response has its status set to 500 but nothing
  sent; the error is thrown out of the listener, outside the \<open>try\<close> block.
\<close>

lemma stream_error_listener_throws:
  assumes decoded:
      "decodeURIComponent (replace_first (lit ''/api/stream/'') [] (req_url req))
         = Some streamUrl"
    and allowed: "startsWith streamUrl (lit ''https://bcdnw.hakunaymatata.com/'')
         \<or> startsWith streamUrl (lit ''https://valiw.hakunaymatata.com/'')"
    and reply: "up (stream_request streamUrl (req_range req)) = Response r"
    and status: "up_status r = 200 \<or> up_status r = 206"
    and fails: "up_end r = Errored msg"
    and no_chunk: "up_chunks r = []"
    and no_type: "map_of (up_headers r) ''content-type'' = None"
  shows "written (out_res (get_api_stream up req)) = []"
    and "\<not> ended (out_res (get_api_stream up req))"
    and "out_unhandled (get_api_stream up req) = Some (lit ''invalid media type'')"
proof -
  from decoded allowed reply status
  have out: "get_api_stream up req =
      \<lparr>out_res = fst (stream_relay r (stream_head r (cors_headers new_response))),
       out_requests = [stream_request streamUrl (req_range req)],
       out_unhandled = snd (stream_relay r (stream_head r (cors_headers new_response)))\<rparr>"
    by (rule get_api_stream_relayed)
  have "content_type_value (lit ''undefined'') = lit ''undefined''"
    by code_simp
  moreover have "lit ''undefined'' \<noteq> []"
    by (simp add: lit_def)
  moreover have "setCharset_error (lit ''undefined'') = Some (lit ''invalid media type'')"
    by code_simp
  ultimately
  have "json_error (res_status 500 (stream_head r (cors_headers new_response)))
      = Some (lit ''invalid media type'')"
    using no_type by (simp add: stream_head_json_error js_String_def)
  with fails no_chunk
  have relay: "stream_relay r (stream_head r (cors_headers new_response))
      = (res_status 500 (stream_head r (cors_headers new_response)),
         Some (lit ''invalid media type''))"
    by (intro stream_relay_listener_throws [of _ msg])
       (simp_all add: stream_head_fields fresh_response)
  show "written (out_res (get_api_stream up req)) = []"
    by (simp add: out relay res_status_fields stream_head_fields fresh_response)
  show "\<not> ended (out_res (get_api_stream up req))"
    by (simp add: out relay res_status_fields stream_head_fields fresh_response)
  show "out_unhandled (get_api_stream up req) = Some (lit ''invalid media type'')"
    by (simp add: out relay)
qed

text \<open>
  Claim C8, amended. For a stream request with a valid URL: when the upstream body
  fails after a chunk has been relayed, so that the headers are sent, the handler
  writes nothing more and does not end the response, which keeps the chunks relayed so
  far and its status 200 or 206; when the upstream body fails before any chunk and the
  upstream sent a \<open>content-type\<close> that \<open>res.json\<close> accepts, or when there is no
  upstream response at all, the response is a single JSON body with status 500. In
  each of these cases the error meets the listener or the \<open>catch\<close> block of the
  handler.
\<close>

theorem stream_failure_handling:
  assumes decoded:
      "decodeURIComponent (replace_first (lit ''/api/stream/'') [] (req_url req))
         = Some streamUrl"
    and allowed: "startsWith streamUrl (lit ''https://bcdnw.hakunaymatata.com/'')
         \<or> startsWith streamUrl (lit ''https://valiw.hakunaymatata.com/'')"
  shows "(\<forall>r msg. up (stream_request streamUrl (req_range req)) = Response r
            \<and> (up_status r = 200 \<or> up_status r = 206)
            \<and> up_end r = Errored msg \<and> up_chunks r \<noteq> [] \<longrightarrow>
          headersSent (out_res (get_api_stream up req))
          \<and> written (out_res (get_api_stream up req)) = map Chunk (up_chunks r)
          \<and> \<not> ended (out_res (get_api_stream up req))
          \<and> (statusCode (out_res (get_api_stream up req)) = 200
              \<or> statusCode (out_res (get_api_stream up req)) = 206)
          \<and> out_unhandled (get_api_stream up req) = None)
       \<and> (\<forall>r msg type. up (stream_request streamUrl (req_range req)) = Response r
            \<and> (up_status r = 200 \<or> up_status r = 206)
            \<and> up_end r = Errored msg \<and> up_chunks r = []
            \<and> map_of (up_headers r) ''content-type'' = Some type
            \<and> setCharset_error (content_type_value type) = None \<longrightarrow>
          statusCode (out_res (get_api_stream up req)) = 500
          \<and> written (out_res (get_api_stream up req)) =
               [Json [(''status'', JStr (lit ''error'')),
                      (''message'', JStr (lit ''Stream error occurred''))]]
          \<and> ended (out_res (get_api_stream up req))
          \<and> out_unhandled (get_api_stream up req) = None)
       \<and> (\<forall>msg. up (stream_request streamUrl (req_range req)) = NoResponse msg \<longrightarrow>
          statusCode (out_res (get_api_stream up req)) = 500
          \<and> written (out_res (get_api_stream up req)) =
               [Json [(''status'', JStr (lit ''error'')),
                      (''message'', JStr (lit ''Failed to proxy stream'')),
                      (''error'', JStr msg)]]
          \<and> ended (out_res (get_api_stream up req))
          \<and> out_unhandled (get_api_stream up req) = None)"
proof (intro conjI allI impI)
  fix r msg
  assume a: "up (stream_request streamUrl (req_range req)) = Response r
      \<and> (up_status r = 200 \<or> up_status r = 206)
      \<and> up_end r = Errored msg \<and> up_chunks r \<noteq> []"
  then have "up (stream_request streamUrl (req_range req)) = Response r"
    and "up_status r = 200 \<or> up_status r = 206"
    by simp_all
  with decoded allowed
  have out: "get_api_stream up req =
      \<lparr>out_res = fst (stream_relay r (stream_head r (cors_headers new_response))),
       out_requests = [stream_request streamUrl (req_range req)],
       out_unhandled = snd (stream_relay r (stream_head r (cors_headers new_response)))\<rparr>"
    by (rule get_api_stream_relayed)
  from a have relay: "stream_relay r (stream_head r (cors_headers new_response))
      = (pipe_chunks (up_chunks r) (stream_head r (cors_headers new_response)), None)"
    by (simp add: stream_relay_error_after_chunk)
  from a show "headersSent (out_res (get_api_stream up req))"
    by (simp add: out relay pipe_chunks_fields)
  show "written (out_res (get_api_stream up req)) = map Chunk (up_chunks r)"
    by (simp add: out relay pipe_chunks_fields stream_head_fields fresh_response)
  show "\<not> ended (out_res (get_api_stream up req))"
    by (simp add: out relay pipe_chunks_fields stream_head_fields fresh_response)
  show "statusCode (out_res (get_api_stream up req)) = 200
      \<or> statusCode (out_res (get_api_stream up req)) = 206"
    by (simp add: out relay pipe_chunks_fields stream_head_status fresh_response)
  show "out_unhandled (get_api_stream up req) = None"
    by (simp add: out relay)
next
  fix r msg type
  assume a: "up (stream_request streamUrl (req_range req)) = Response r
      \<and> (up_status r = 200 \<or> up_status r = 206)
      \<and> up_end r = Errored msg \<and> up_chunks r = []
      \<and> map_of (up_headers r) ''content-type'' = Some type
      \<and> setCharset_error (content_type_value type) = None"
  then have "up (stream_request streamUrl (req_range req)) = Response r"
    and "up_status r = 200 \<or> up_status r = 206"
    by simp_all
  with decoded allowed
  have out: "get_api_stream up req =
      \<lparr>out_res = fst (stream_relay r (stream_head r (cors_headers new_response))),
       out_requests = [stream_request streamUrl (req_range req)],
       out_unhandled = snd (stream_relay r (stream_head r (cors_headers new_response)))\<rparr>"
    by (rule get_api_stream_relayed)
  from a have "json_error (res_status 500 (stream_head r (cors_headers new_response))) = None"
    by (simp add: stream_head_json_error js_String_def)
  with a have relay: "stream_relay r (stream_head r (cors_headers new_response))
      = (res_json [(''status'', JStr (lit ''error'')),
                   (''message'', JStr (lit ''Stream error occurred''))]
           (res_status 500 (stream_head r (cors_headers new_response))), None)"
    by (intro stream_relay_error_before_chunk [of _ msg])
       (simp_all add: stream_head_fields fresh_response)
  show "statusCode (out_res (get_api_stream up req)) = 500"
    by (simp add: out relay res_json_fields res_status_fields)
  show "written (out_res (get_api_stream up req)) =
      [Json [(''status'', JStr (lit ''error'')),
             (''message'', JStr (lit ''Stream error occurred''))]]"
    by (simp add: out relay res_json_fields res_status_fields stream_head_fields
        fresh_response)
  show "ended (out_res (get_api_stream up req))"
    by (simp add: out relay res_json_fields)
  show "out_unhandled (get_api_stream up req) = None"
    by (simp add: out relay)
next
  fix msg
  assume a: "up (stream_request streamUrl (req_range req)) = NoResponse msg"
  from allowed have "\<not> invalid_url streamUrl"
    by (rule allowed_origin_valid)
  with decoded a
  have out: "get_api_stream up req =
      stream_catch msg [stream_request streamUrl (req_range req)] (cors_headers new_response)"
    by (simp add: get_api_stream_handler stream_handler_def axios_def)
  show "statusCode (out_res (get_api_stream up req)) = 500"
    by (simp add: out stream_catch_def fresh_response res_json_fields res_status_fields)
  show "written (out_res (get_api_stream up req)) =
      [Json [(''status'', JStr (lit ''error'')),
             (''message'', JStr (lit ''Failed to proxy stream'')),
             (''error'', JStr msg)]]"
    by (simp add: out stream_catch_def fresh_response res_json_fields res_status_fields)
  show "ended (out_res (get_api_stream up req))"
    by (simp add: out stream_catch_def fresh_response res_json_fields)
  show "out_unhandled (get_api_stream up req) = None"
    by (simp add: out stream_catch_def)
qed

theorem stream_failure_handling_witness:
  "written (out_res (get_api_stream
      (\<lambda>rq. Response
         \<lparr>up_status = 206, up_headers = [(''content-range'', lit ''bytes 0-5/6'')],
          up_chunks = [[1, 2], [3]], up_end = Errored (lit ''aborted'')\<rparr>)
      \<lparr>req_method = lit ''GET'',
       req_url = lit ''/api/stream/https%3A%2F%2Fbcdnw.hakunaymatata.com%2Fv.mp4'',
       req_range = Some (lit ''bytes=0-5'')\<rparr>)) = [Chunk [1, 2], Chunk [3]]
   \<and> \<not> ended (out_res (get_api_stream
      (\<lambda>rq. Response
         \<lparr>up_status = 206, up_headers = [(''content-range'', lit ''bytes 0-5/6'')],
          up_chunks = [[1, 2], [3]], up_end = Errored (lit ''aborted'')\<rparr>)
      \<lparr>req_method = lit ''GET'',
       req_url = lit ''/api/stream/https%3A%2F%2Fbcdnw.hakunaymatata.com%2Fv.mp4'',
       req_range = Some (lit ''bytes=0-5'')\<rparr>))
   \<and> setCharset_error (content_type_value (lit ''video/mp4'')) = None
   \<and> written (out_res (get_api_stream
      (\<lambda>rq. Response
         \<lparr>up_status = 200, up_headers = [(''content-type'', lit ''video/mp4'')],
          up_chunks = [], up_end = Errored (lit ''aborted'')\<rparr>)
      \<lparr>req_method = lit ''GET'',
       req_url = lit ''/api/stream/https%3A%2F%2Fbcdnw.hakunaymatata.com%2Fv.mp4'',
       req_range = None\<rparr>))
     = [Json [(''status'', JStr (lit ''error'')),
              (''message'', JStr (lit ''Stream error occurred''))]]
   \<and> statusCode (out_res (get_api_stream
      (\<lambda>rq. Response
         \<lparr>up_status = 200, up_headers = [(''content-type'', lit ''video/mp4'')],
          up_chunks = [], up_end = Errored (lit ''aborted'')\<rparr>)
      \<lparr>req_method = lit ''GET'',
       req_url = lit ''/api/stream/https%3A%2F%2Fbcdnw.hakunaymatata.com%2Fv.mp4'',
       req_range = None\<rparr>)) = 500
   \<and> statusCode (out_res (get_api_stream
      (\<lambda>rq. NoResponse (lit ''timeout of 30000ms exceeded''))
      \<lparr>req_method = lit ''GET'',
       req_url = lit ''/api/stream/https%3A%2F%2Fbcdnw.hakunaymatata.com%2Fv.mp4'',
       req_range = None\<rparr>)) = 500"
proof -
  let ?url = "lit ''/api/stream/https%3A%2F%2Fbcdnw.hakunaymatata.com%2Fv.mp4''"
  let ?u = "lit ''https://bcdnw.hakunaymatata.com/v.mp4''"
  let ?ra = "\<lparr>req_method = lit ''GET'', req_url = ?url,
       req_range = Some (lit ''bytes=0-5'')\<rparr>"
  let ?rb = "\<lparr>req_method = lit ''GET'', req_url = ?url, req_range = None\<rparr>"
  let ?r1 = "\<lparr>up_status = 206, up_headers = [(''content-range'', lit ''bytes 0-5/6'')],
          up_chunks = [[1, 2], [3]], up_end = Errored (lit ''aborted'')\<rparr>"
  let ?r2 = "\<lparr>up_status = 200, up_headers = [(''content-type'', lit ''video/mp4'')],
          up_chunks = [], up_end = Errored (lit ''aborted'')\<rparr>"
  have da: "decodeURIComponent (replace_first (lit ''/api/stream/'') [] (req_url ?ra)) = Some ?u"
    by code_simp
  have db: "decodeURIComponent (replace_first (lit ''/api/stream/'') [] (req_url ?rb)) = Some ?u"
    by code_simp
  have al: "startsWith ?u (lit ''https://bcdnw.hakunaymatata.com/'')
      \<or> startsWith ?u (lit ''https://valiw.hakunaymatata.com/'')"
    by code_simp
  have accepted: "setCharset_error (content_type_value (lit ''video/mp4'')) = None"
    by code_simp
  from stream_failure_handling [OF da al, of "\<lambda>rq. Response ?r1"]
  have "(\<lambda>rq. Response ?r1) (stream_request ?u (req_range ?ra)) = Response ?r1
            \<and> (up_status ?r1 = 200 \<or> up_status ?r1 = 206)
            \<and> up_end ?r1 = Errored (lit ''aborted'') \<and> up_chunks ?r1 \<noteq> [] \<longrightarrow>
          written (out_res (get_api_stream (\<lambda>rq. Response ?r1) ?ra)) = map Chunk (up_chunks ?r1)
          \<and> \<not> ended (out_res (get_api_stream (\<lambda>rq. Response ?r1) ?ra))"
    by blast
  then have one: "written (out_res (get_api_stream (\<lambda>rq. Response ?r1) ?ra))
        = [Chunk [1, 2], Chunk [3]]
      \<and> \<not> ended (out_res (get_api_stream (\<lambda>rq. Response ?r1) ?ra))"
    by simp
  from stream_failure_handling [OF db al, of "\<lambda>rq. Response ?r2"]
  have "(\<lambda>rq. Response ?r2) (stream_request ?u (req_range ?rb)) = Response ?r2
            \<and> (up_status ?r2 = 200 \<or> up_status ?r2 = 206)
            \<and> up_end ?r2 = Errored (lit ''aborted'') \<and> up_chunks ?r2 = []
            \<and> map_of (up_headers ?r2) ''content-type'' = Some (lit ''video/mp4'')
            \<and> setCharset_error (content_type_value (lit ''video/mp4'')) = None \<longrightarrow>
          statusCode (out_res (get_api_stream (\<lambda>rq. Response ?r2) ?rb)) = 500
          \<and> written (out_res (get_api_stream (\<lambda>rq. Response ?r2) ?rb)) =
               [Json [(''status'', JStr (lit ''error'')),
                      (''message'', JStr (lit ''Stream error occurred''))]]"
    by blast
  with accepted
  have two: "statusCode (out_res (get_api_stream (\<lambda>rq. Response ?r2) ?rb)) = 500
      \<and> written (out_res (get_api_stream (\<lambda>rq. Response ?r2) ?rb)) =
               [Json [(''status'', JStr (lit ''error'')),
                      (''message'', JStr (lit ''Stream error occurred''))]]"
    by simp
  from stream_failure_handling [OF db al,
      of "\<lambda>rq. NoResponse (lit ''timeout of 30000ms exceeded'')"]
  have three: "statusCode (out_res (get_api_stream
      (\<lambda>rq. NoResponse (lit ''timeout of 30000ms exceeded'')) ?rb)) = 500"
    by blast
  from one two three accepted show ?thesis
    by blast
qed

section \<open>The file name of a download\<close>

lemma startsWith_append: "startsWith s p \<longleftrightarrow> (\<exists>r. s = p @ r)"
  unfolding startsWith_def
  by (metis append_eq_conv_conj append_take_drop_id)

lemma quoted_here_iff:
  "quoted_here s = Some x \<longleftrightarrow>
     x \<noteq> [] \<and> 0x22 \<notin> set x \<and> (\<exists>post. s = lit ''filename=\"'' @ x @ 0x22 # post)"
proof
  assume m: "quoted_here s = Some x"
  then obtain r where s: "s = lit ''filename=\"'' @ r"
    by (auto simp: quoted_here_def startsWith_append split: if_splits)
  with m have x: "x = takeWhile (\<lambda>c. c \<noteq> 0x22) r" and ne: "x \<noteq> []"
    and len: "length x < length r"
    by (auto simp: quoted_here_def Let_def split: if_splits)
  have "dropWhile (\<lambda>c. c \<noteq> 0x22) r \<noteq> []"
  proof
    assume "dropWhile (\<lambda>c. c \<noteq> 0x22) r = []"
    then have "takeWhile (\<lambda>c. c \<noteq> 0x22) r = r"
      by (metis append_Nil2 takeWhile_dropWhile_id)
    with x len show False
      by simp
  qed
  then obtain d ds where d: "dropWhile (\<lambda>c. c \<noteq> 0x22) r = d # ds"
    by (cases "dropWhile (\<lambda>c. c \<noteq> 0x22) r") auto
  then have "d = 0x22"
    using hd_dropWhile [of "\<lambda>c. c \<noteq> 0x22" r] by auto
  with d x have "r = x @ 0x22 # ds"
    by (metis takeWhile_dropWhile_id)
  moreover from x have "0x22 \<notin> set x"
    by (auto dest: set_takeWhileD)
  ultimately show "x \<noteq> [] \<and> 0x22 \<notin> set x \<and> (\<exists>post. s = lit ''filename=\"'' @ x @ 0x22 # post)"
    using s ne by blast
next
  assume "x \<noteq> [] \<and> 0x22 \<notin> set x \<and> (\<exists>post. s = lit ''filename=\"'' @ x @ 0x22 # post)"
  then obtain post where ne: "x \<noteq> []" and nq: "0x22 \<notin> set x"
    and s: "s = lit ''filename=\"'' @ x @ 0x22 # post"
    by blast
  from nq have "takeWhile (\<lambda>c. c \<noteq> 0x22) (x @ 0x22 # post) = x"
    by (induction x) auto
  with ne s show "quoted_here s = Some x"
    by (simp add: quoted_here_def startsWith_def)
qed

lemma unquoted_here_iff:
  "unquoted_here s = Some x \<longleftrightarrow>
     x \<noteq> [] \<and> 0x3B \<notin> set x \<and>
     (\<exists>post. s = lit ''filename='' @ x @ post \<and> (post = [] \<or> hd post = 0x3B))"
proof
  assume m: "unquoted_here s = Some x"
  then obtain r where s: "s = lit ''filename='' @ r"
    by (auto simp: unquoted_here_def startsWith_append split: if_splits)
  with m have x: "x = takeWhile (\<lambda>c. c \<noteq> 0x3B) r" and ne: "x \<noteq> []"
    by (auto simp: unquoted_here_def Let_def split: if_splits)
  let ?post = "dropWhile (\<lambda>c. c \<noteq> 0x3B) r"
  from x have "r = x @ ?post"
    by simp
  moreover have "?post = [] \<or> hd ?post = 0x3B"
    using hd_dropWhile [of "\<lambda>c. c \<noteq> 0x3B" r] by auto
  moreover from x have "0x3B \<notin> set x"
    by (auto dest: set_takeWhileD)
  ultimately show "x \<noteq> [] \<and> 0x3B \<notin> set x \<and>
     (\<exists>post. s = lit ''filename='' @ x @ post \<and> (post = [] \<or> hd post = 0x3B))"
    using s ne by blast
next
  assume "x \<noteq> [] \<and> 0x3B \<notin> set x \<and>
     (\<exists>post. s = lit ''filename='' @ x @ post \<and> (post = [] \<or> hd post = 0x3B))"
  then obtain post where ne: "x \<noteq> []" and nq: "0x3B \<notin> set x"
    and s: "s = lit ''filename='' @ x @ post" and post: "post = [] \<or> hd post = 0x3B"
    by blast
  from nq post have "takeWhile (\<lambda>c. c \<noteq> 0x3B) (x @ post) = x"
    by (induction x) (auto simp: takeWhile_eq_Nil_iff)
  with ne s show "unquoted_here s = Some x"
    by (simp add: unquoted_here_def startsWith_def)
qed

lemma leftmost_None_iff:
  "leftmost m s = None \<longleftrightarrow> (\<forall>pre suf. s = pre @ suf \<longrightarrow> m suf = None)"
proof (induction s)
  case Nil
  then show ?case by simp
next
  case (Cons c s)
  show ?case
  proof (cases "m (c # s)")
    case None
    then show ?thesis
      using Cons by (auto simp: Cons_eq_append_conv)
  next
    case (Some y)
    then have "leftmost m (c # s) \<noteq> None"
      by simp
    moreover from Some have "\<not> (\<forall>pre suf. c # s = pre @ suf \<longrightarrow> m suf = None)"
      by (metis append_Nil option.distinct(1))
    ultimately show ?thesis
      by blast
  qed
qed

lemma leftmost_Some_iff:
  "leftmost m s = Some x \<longleftrightarrow>
     (\<exists>pre suf. s = pre @ suf \<and> m suf = Some x \<and>
        (\<forall>pre' suf'. s = pre' @ suf' \<and> length pre' < length pre \<longrightarrow> m suf' = None))"
proof (induction s)
  case Nil
  then show ?case by simp
next
  case (Cons c s)
  show ?case
  proof (cases "m (c # s)")
    case (Some y)
    show ?thesis
    proof
      assume "leftmost m (c # s) = Some x"
      with Some have "m (c # s) = Some x"
        by simp
      then show "\<exists>pre suf. c # s = pre @ suf \<and> m suf = Some x \<and>
        (\<forall>pre' suf'. c # s = pre' @ suf' \<and> length pre' < length pre \<longrightarrow> m suf' = None)"
        by (intro exI [of _ "[]"] exI [of _ "c # s"]) simp
    next
      assume "\<exists>pre suf. c # s = pre @ suf \<and> m suf = Some x \<and>
        (\<forall>pre' suf'. c # s = pre' @ suf' \<and> length pre' < length pre \<longrightarrow> m suf' = None)"
      then obtain pre suf where eq: "c # s = pre @ suf" and hit: "m suf = Some x"
        and first: "\<forall>pre' suf'. c # s = pre' @ suf' \<and> length pre' < length pre
              \<longrightarrow> m suf' = None"
        by blast
      have "pre = []"
      proof (rule ccontr)
        assume "pre \<noteq> []"
        with first have "m (c # s) = None"
          by (metis append_Nil length_greater_0_conv list.size(3))
        with Some show False
          by simp
      qed
      with eq have "suf = c # s"
        by simp
      with hit have "m (c # s) = Some x"
        by simp
      then show "leftmost m (c # s) = Some x"
        by simp
    qed
  next
    case None
    show ?thesis
    proof
      assume "leftmost m (c # s) = Some x"
      with None Cons obtain pre suf where eq: "s = pre @ suf" and hit: "m suf = Some x"
        and first: "\<forall>pre' suf'. s = pre' @ suf' \<and> length pre' < length pre
              \<longrightarrow> m suf' = None"
        by auto
      have "\<forall>pre' suf'. c # s = pre' @ suf' \<and> length pre' < length (c # pre)
              \<longrightarrow> m suf' = None"
        using None first by (auto simp: Cons_eq_append_conv)
      with eq hit show "\<exists>pre suf. c # s = pre @ suf \<and> m suf = Some x \<and>
        (\<forall>pre' suf'. c # s = pre' @ suf' \<and> length pre' < length pre \<longrightarrow> m suf' = None)"
        by (intro exI [of _ "c # pre"] exI [of _ suf]) simp
    next
      assume "\<exists>pre suf. c # s = pre @ suf \<and> m suf = Some x \<and>
        (\<forall>pre' suf'. c # s = pre' @ suf' \<and> length pre' < length pre \<longrightarrow> m suf' = None)"
      then obtain pre suf where eq: "c # s = pre @ suf" and hit: "m suf = Some x"
        and first: "\<forall>pre' suf'. c # s = pre' @ suf' \<and> length pre' < length pre
              \<longrightarrow> m suf' = None"
        by blast
      from eq hit None obtain p where pre: "pre = c # p" and s: "s = p @ suf"
        by (cases pre) auto
      have "\<forall>pre' suf'. s = pre' @ suf' \<and> length pre' < length p \<longrightarrow> m suf' = None"
      proof (intro allI impI)
        fix pre' suf'
        assume "s = pre' @ suf' \<and> length pre' < length p"
        then have "c # s = (c # pre') @ suf' \<and> length (c # pre') < length pre"
          by (simp add: pre)
        with first show "m suf' = None"
          by blast
      qed
      with s hit have "leftmost m s = Some x"
        using Cons by blast
      with None show "leftmost m (c # s) = Some x"
        by simp
    qed
  qed
qed


lemma quoted_at_iff:
  "quoted_at cd pre x \<longleftrightarrow> (\<exists>suf. cd = pre @ suf \<and> quoted_here suf = Some x)"
  by (auto simp: quoted_at_def quoted_here_iff)

lemma unquoted_at_iff:
  "unquoted_at cd pre x \<longleftrightarrow> (\<exists>suf. cd = pre @ suf \<and> unquoted_here suf = Some x)"
  by (auto simp: unquoted_at_def unquoted_here_iff)

lemma first_match_iff:
  assumes at: "\<And>pre x. at cd pre x \<longleftrightarrow> (\<exists>suf. cd = pre @ suf \<and> m suf = Some x)"
  shows "(\<exists>pre. at cd pre x \<and> (\<forall>pre' x'. at cd pre' x' \<longrightarrow> length pre \<le> length pre'))
     \<longleftrightarrow> leftmost m cd = Some x"
proof
  assume "\<exists>pre. at cd pre x \<and> (\<forall>pre' x'. at cd pre' x' \<longrightarrow> length pre \<le> length pre')"
  then obtain pre suf where eq: "cd = pre @ suf" and hit: "m suf = Some x"
    and first: "\<forall>pre' x'. at cd pre' x' \<longrightarrow> length pre \<le> length pre'"
    using at by blast
  have "\<forall>pre' suf'. cd = pre' @ suf' \<and> length pre' < length pre \<longrightarrow> m suf' = None"
  proof (intro allI impI)
    fix pre' suf'
    assume a: "cd = pre' @ suf' \<and> length pre' < length pre"
    show "m suf' = None"
    proof (cases "m suf'")
      case (Some y)
      with a have "at cd pre' y"
        using at by blast
      with first have "length pre \<le> length pre'"
        by blast
      with a show ?thesis
        by simp
    qed simp
  qed
  with eq hit show "leftmost m cd = Some x"
    unfolding leftmost_Some_iff by blast
next
  assume "leftmost m cd = Some x"
  then obtain pre suf where eq: "cd = pre @ suf" and hit: "m suf = Some x"
    and first: "\<forall>pre' suf'. cd = pre' @ suf' \<and> length pre' < length pre \<longrightarrow> m suf' = None"
    unfolding leftmost_Some_iff by blast
  have "\<forall>pre' x'. at cd pre' x' \<longrightarrow> length pre \<le> length pre'"
  proof (intro allI impI)
    fix pre' x'
    assume "at cd pre' x'"
    then obtain suf' where "cd = pre' @ suf'" and "m suf' = Some x'"
      using at by blast
    with first show "length pre \<le> length pre'"
      by (metis not_less option.distinct(1))
  qed
  moreover from eq hit have "at cd pre x"
    using at by blast
  ultimately show "\<exists>pre. at cd pre x
      \<and> (\<forall>pre' x'. at cd pre' x' \<longrightarrow> length pre \<le> length pre')"
    by blast
qed

lemma first_quoted_iff: "first_quoted cd x \<longleftrightarrow> leftmost quoted_here cd = Some x"
  unfolding first_quoted_def by (rule first_match_iff) (rule quoted_at_iff)

lemma first_unquoted_iff: "first_unquoted cd x \<longleftrightarrow> leftmost unquoted_here cd = Some x"
  unfolding first_unquoted_def by (rule first_match_iff) (rule unquoted_at_iff)

lemma first_quoted_nonempty: "first_quoted cd x \<Longrightarrow> x \<noteq> [] \<and> cd \<noteq> []"
  by (auto simp: first_quoted_def quoted_at_def lit_def)

lemma first_unquoted_nonempty: "first_unquoted cd x \<Longrightarrow> x \<noteq> [] \<and> cd \<noteq> []"
  by (auto simp: first_unquoted_def unquoted_at_def lit_def)

lemma last_component_no_separator:
  "0x2F \<notin> set (last_component s) \<and> 0x5C \<notin> set (last_component s)"
  by (auto simp: last_component_def dest: set_takeWhileD)

lemma last_component_suffix:
  "\<exists>dir. s = dir @ last_component s \<and> (dir = [] \<or> last dir = 0x2F \<or> last dir = 0x5C)"
proof -
  let ?P = "\<lambda>c :: code_unit. c \<noteq> 0x2F \<and> c \<noteq> 0x5C"
  let ?dir = "rev (dropWhile ?P (rev s))"
  have "rev (takeWhile ?P (rev s) @ dropWhile ?P (rev s)) = s"
    by simp
  then have "s = ?dir @ last_component s"
    by (simp add: last_component_def del: takeWhile_dropWhile_id)
  moreover have "?dir = [] \<or> last ?dir = 0x2F \<or> last ?dir = 0x5C"
    using hd_dropWhile [of ?P "rev s"] by (auto simp: last_rev)
  ultimately show ?thesis
    by blast
qed

lemma fallback_no_separator:
  "0x2F \<notin> set (lit ''Movie_by_GiftedTech.mp4'') \<and> 0x5C \<notin> set (lit ''Movie_by_GiftedTech.mp4'')"
  by (simp add: lit_def)

lemma download_filename_cases:
  "download_filename h = lit ''Movie_by_GiftedTech.mp4''
   \<or> (\<exists>x. download_filename h = last_component (trim x))"
  by (auto simp: download_filename_def split: option.splits)

lemma download_content_disposition:
  assumes "decodeURIComponent (replace_first (lit ''/api/download/'') [] (req_url req)) = Some u"
    and "startsWith u (lit ''https://bcdnw.hakunaymatata.com/'')
         \<or> startsWith u (lit ''https://valiw.hakunaymatata.com/'')"
    and "up (download_request u) = Response r"
    and "200 \<le> up_status r \<and> up_status r < 300"
  shows "getHeader (out_res (get_api_download up req)) ''Content-Disposition'' =
     Some (lit ''attachment; filename=\"''
           @ download_filename (map_of (up_headers r) ''content-disposition'') @ lit ''\"'')"
proof -
  from assms(2) have "\<not> invalid_url u"
    by (rule allowed_origin_valid)
  moreover from assms(3,4) have "axios up (download_request u) = Inr r"
    by (simp add: axios_def)
  ultimately show ?thesis
    using assms(1)
    by (simp add: get_api_download_handler download_handler_def Let_def getHeader_fields
        getHeader_res_set js_String_def split: stream_end.splits)
qed

text \<open>
  Claim C7. The download relay takes the file name from the upstream
  \<open>content-disposition\<close> header. Without the header the name is the fallback
  \<open>Movie_by_GiftedTech.mp4\<close>. When the header holds \<open>filename="X"\<close>, the name
  comes from the first such \<open>X\<close>; when it holds no \<open>filename="X"\<close> but holds
  \<open>filename=X\<close>, from the first such \<open>X\<close>; when it holds neither, it is the
  fallback. The name is what follows the last slash or backslash of \<open>X\<close> (trimmed of
  white space first), so \<open>filename="a/b/evil.mp4"\<close> gives \<open>evil.mp4\<close>, and it
  never holds a slash or a backslash. It is the name sent downstream in
  \<open>Content-Disposition: attachment; filename="..."\<close>.
\<close>

theorem download_filename_extraction:
  "download_filename None = lit ''Movie_by_GiftedTech.mp4''
   \<and> (first_quoted cd x \<longrightarrow> download_filename (Some cd) = last_component (trim x))
   \<and> ((\<forall>y. \<not> first_quoted cd y) \<and> first_unquoted cd x \<longrightarrow>
        download_filename (Some cd) = last_component (trim x))
   \<and> ((\<forall>y. \<not> first_quoted cd y) \<and> (\<forall>y. \<not> first_unquoted cd y) \<longrightarrow>
        download_filename (Some cd) = lit ''Movie_by_GiftedTech.mp4'')
   \<and> (\<exists>dir. s = dir @ last_component s \<and> (dir = [] \<or> last dir = 0x2F \<or> last dir = 0x5C))
   \<and> download_filename (Some (lit ''attachment; filename=\"a/b/evil.mp4\"'')) = lit ''evil.mp4''
   \<and> 0x2F \<notin> set (download_filename h) \<and> 0x5C \<notin> set (download_filename h)
   \<and> (decodeURIComponent (replace_first (lit ''/api/download/'') [] (req_url req)) = Some u
        \<and> (startsWith u (lit ''https://bcdnw.hakunaymatata.com/'')
            \<or> startsWith u (lit ''https://valiw.hakunaymatata.com/''))
        \<and> up (download_request u) = Response r
        \<and> 200 \<le> up_status r \<and> up_status r < 300 \<longrightarrow>
      getHeader (out_res (get_api_download up req)) ''Content-Disposition'' =
        Some (lit ''attachment; filename=\"''
              @ download_filename (map_of (up_headers r) ''content-disposition'')
              @ lit ''\"''))"
proof (intro conjI impI)
  show "download_filename None = lit ''Movie_by_GiftedTech.mp4''"
    by (simp add: download_filename_def)
next
  assume q: "first_quoted cd x"
  then have "leftmost quoted_here cd = Some x"
    by (simp add: first_quoted_iff)
  with first_quoted_nonempty [OF q]
  show "download_filename (Some cd) = last_component (trim x)"
    by (simp add: download_filename_def)
next
  assume a: "(\<forall>y. \<not> first_quoted cd y) \<and> first_unquoted cd x"
  then have "leftmost quoted_here cd = None"
    by (cases "leftmost quoted_here cd") (auto simp: first_quoted_iff)
  moreover from a have "leftmost unquoted_here cd = Some x"
    by (simp add: first_unquoted_iff)
  moreover from a have "x \<noteq> [] \<and> cd \<noteq> []"
    by (blast dest: first_unquoted_nonempty)
  ultimately show "download_filename (Some cd) = last_component (trim x)"
    by (simp add: download_filename_def)
next
  assume a: "(\<forall>y. \<not> first_quoted cd y) \<and> (\<forall>y. \<not> first_unquoted cd y)"
  then have "leftmost quoted_here cd = None"
    by (cases "leftmost quoted_here cd") (auto simp: first_quoted_iff)
  moreover from a have "leftmost unquoted_here cd = None"
    by (cases "leftmost unquoted_here cd") (auto simp: first_unquoted_iff)
  ultimately show "download_filename (Some cd) = lit ''Movie_by_GiftedTech.mp4''"
    by (simp add: download_filename_def)
next
  show "\<exists>dir. s = dir @ last_component s \<and> (dir = [] \<or> last dir = 0x2F \<or> last dir = 0x5C)"
    by (rule last_component_suffix)
next
  show "download_filename (Some (lit ''attachment; filename=\"a/b/evil.mp4\"'')) = lit ''evil.mp4''"
    by code_simp
next
  show "0x2F \<notin> set (download_filename h)"
    using download_filename_cases [of h] last_component_no_separator fallback_no_separator
    by metis
next
  show "0x5C \<notin> set (download_filename h)"
    using download_filename_cases [of h] last_component_no_separator fallback_no_separator
    by metis
next
  assume "decodeURIComponent (replace_first (lit ''/api/download/'') [] (req_url req)) = Some u
        \<and> (startsWith u (lit ''https://bcdnw.hakunaymatata.com/'')
            \<or> startsWith u (lit ''https://valiw.hakunaymatata.com/''))
        \<and> up (download_request u) = Response r
        \<and> 200 \<le> up_status r \<and> up_status r < 300"
  then have "decodeURIComponent (replace_first (lit ''/api/download/'') [] (req_url req))
        = Some u"
    and "startsWith u (lit ''https://bcdnw.hakunaymatata.com/'')
        \<or> startsWith u (lit ''https://valiw.hakunaymatata.com/'')"
    and "up (download_request u) = Response r"
    and "200 \<le> up_status r \<and> up_status r < 300"
    by blast+
  then show "getHeader (out_res (get_api_download up req)) ''Content-Disposition'' =
        Some (lit ''attachment; filename=\"''
              @ download_filename (map_of (up_headers r) ''content-disposition'')
              @ lit ''\"'')"
    by (rule download_content_disposition)
qed

theorem download_filename_extraction_witness:
  "first_quoted (lit ''attachment; filename=\"a/b/evil.mp4\"'') (lit ''a/b/evil.mp4'')
   \<and> download_filename (Some (lit ''attachment; filename=\"a/b/evil.mp4\"'')) = lit ''evil.mp4''
   \<and> (\<forall>y. \<not> first_quoted (lit ''attachment; filename=clips/movie.mp4; size=3'') y)
   \<and> first_unquoted (lit ''attachment; filename=clips/movie.mp4; size=3'')
        (lit ''clips/movie.mp4'')
   \<and> download_filename (Some (lit ''attachment; filename=clips/movie.mp4; size=3''))
       = lit ''movie.mp4''
   \<and> (\<forall>y. \<not> first_quoted (lit ''attachment'') y)
   \<and> (\<forall>y. \<not> first_unquoted (lit ''attachment'') y)
   \<and> download_filename (Some (lit ''attachment'')) = lit ''Movie_by_GiftedTech.mp4''
   \<and> getHeader (out_res (get_api_download
        (\<lambda>rq. Response
           \<lparr>up_status = 200,
            up_headers = [(''content-disposition'', lit ''attachment; filename=\"a/b/evil.mp4\"'')],
            up_chunks = [[1]], up_end = Finished\<rparr>)
        \<lparr>req_method = lit ''GET'',
         req_url = lit ''/api/download/https%3A%2F%2Fbcdnw.hakunaymatata.com%2Fv.mp4'',
         req_range = None\<rparr>)) ''Content-Disposition''
     = Some (lit ''attachment; filename=\"evil.mp4\"'')"
proof -
  let ?cd1 = "lit ''attachment; filename=\"a/b/evil.mp4\"''"
  let ?cd2 = "lit ''attachment; filename=clips/movie.mp4; size=3''"
  let ?cd3 = "lit ''attachment''"
  let ?r = "\<lparr>up_status = 200, up_headers = [(''content-disposition'', ?cd1)],
            up_chunks = [[1]], up_end = Finished\<rparr>"
  let ?req = "\<lparr>req_method = lit ''GET'',
         req_url = lit ''/api/download/https%3A%2F%2Fbcdnw.hakunaymatata.com%2Fv.mp4'',
         req_range = None\<rparr>"
  let ?u = "lit ''https://bcdnw.hakunaymatata.com/v.mp4''"
  have "leftmost quoted_here ?cd1 = Some (lit ''a/b/evil.mp4'')"
    by code_simp
  then have q1: "first_quoted ?cd1 (lit ''a/b/evil.mp4'')"
    by (simp add: first_quoted_iff)
  have "leftmost quoted_here ?cd2 = None"
    by code_simp
  then have q2: "\<forall>y. \<not> first_quoted ?cd2 y"
    by (simp add: first_quoted_iff)
  have "leftmost unquoted_here ?cd2 = Some (lit ''clips/movie.mp4'')"
    by code_simp
  then have u2: "first_unquoted ?cd2 (lit ''clips/movie.mp4'')"
    by (simp add: first_unquoted_iff)
  have "leftmost quoted_here ?cd3 = None"
    by code_simp
  then have q3: "\<forall>y. \<not> first_quoted ?cd3 y"
    by (simp add: first_quoted_iff)
  have "leftmost unquoted_here ?cd3 = None"
    by code_simp
  then have u3: "\<forall>y. \<not> first_unquoted ?cd3 y"
    by (simp add: first_unquoted_iff)
  have c1: "last_component (trim (lit ''a/b/evil.mp4'')) = lit ''evil.mp4''"
    by code_simp
  have c2: "last_component (trim (lit ''clips/movie.mp4'')) = lit ''movie.mp4''"
    by code_simp
  have h1: "decodeURIComponent (replace_first (lit ''/api/download/'') [] (req_url ?req)) = Some ?u"
    by code_simp
  have h2: "startsWith ?u (lit ''https://bcdnw.hakunaymatata.com/'')
      \<or> startsWith ?u (lit ''https://valiw.hakunaymatata.com/'')"
    by code_simp
  have h3: "(\<lambda>rq. Response ?r) (download_request ?u) = Response ?r"
    by simp
  have h4: "200 \<le> up_status ?r \<and> up_status ?r < 300"
    by simp
  have h5: "map_of (up_headers ?r) ''content-disposition'' = Some ?cd1"
    by simp
  have h6: "lit ''attachment; filename=\"'' @ lit ''evil.mp4'' @ lit ''\"''
      = lit ''attachment; filename=\"evil.mp4\"''"
    by (simp add: lit_def)
  from download_filename_extraction
      [where cd = ?cd1 and x = "lit ''a/b/evil.mp4''" and req = ?req and u = ?u
        and up = "\<lambda>rq. Response ?r" and r = ?r]
    q1 h1 h2 h3 h4
  have one: "download_filename (Some ?cd1) = lit ''evil.mp4''"
    and four: "getHeader (out_res (get_api_download (\<lambda>rq. Response ?r) ?req))
        ''Content-Disposition''
      = Some (lit ''attachment; filename=\"''
              @ download_filename (map_of (up_headers ?r) ''content-disposition'')
              @ lit ''\"'')"
    by blast+
  from download_filename_extraction [where cd = ?cd2 and x = "lit ''clips/movie.mp4''"] q2 u2
  have two: "download_filename (Some ?cd2) = lit ''movie.mp4''"
    unfolding c2 [symmetric] by blast
  from download_filename_extraction [where cd = ?cd3] q3 u3
  have three: "download_filename (Some ?cd3) = lit ''Movie_by_GiftedTech.mp4''"
    by blast
  from four have four': "getHeader (out_res (get_api_download (\<lambda>rq. Response ?r) ?req))
        ''Content-Disposition'' = Some (lit ''attachment; filename=\"evil.mp4\"'')"
    unfolding h5 one h6 .
  from q1 one q2 u2 two q3 u3 three four' show ?thesis
    by blast
qed

end
